theory Spec2Isabelle
  imports Complex_Main "HOL-Library.Sublist" "HOL-Library.Word"
begin

section \<open>Strings and paths (Go's strings and path/filepath on a Unix system)\<close>

text \<open>
  Go strings are byte sequences; they are modelled as \<open>string\<close> (a list of \<open>char\<close>,
  one \<open>char\<close> per byte).  The functions of the standard library that the installer and the
  uninstaller call are written out here, with the names they have in Go.  The path separator
  is \<open>/\<close> and there are no volume names, as on the Linux systems the program targets.
\<close>

abbreviation sep :: char where
  "sep \<equiv> CHR ''/''"

text \<open>\<open>strings.ToLower\<close>, on the ASCII letters; every other byte is kept as it is.  Go
  also maps the upper-case letters outside ASCII; strings with such letters are outside
  the model.\<close>

definition lower_char :: "char \<Rightarrow> char" where
  \<comment> \<open>\<open>A\<close> to \<open>Z\<close> are the bytes 65 to 90; adding 32 sets the bit of weight 32, which is clear in them\<close>
  "lower_char c =
     (let n = (of_char c :: nat) in
      if 65 \<le> n \<and> n \<le> 90
      then (case c of Char b0 b1 b2 b3 b4 b5 b6 b7 \<Rightarrow> Char b0 b1 b2 b3 b4 True b6 b7)
      else c)"

definition ToLower :: "string \<Rightarrow> string" where
  "ToLower s = map lower_char s"

text \<open>\<open>strings.HasPrefix\<close>, \<open>strings.HasSuffix\<close> and \<open>strings.Contains\<close>.\<close>

definition HasPrefix :: "string \<Rightarrow> string \<Rightarrow> bool" where
  "HasPrefix s p = (take (length p) s = p)"


fun Contains :: "string \<Rightarrow> string \<Rightarrow> bool" where
  "Contains [] sub = (sub = [])"
| "Contains (c # cs) sub = (HasPrefix (c # cs) sub \<or> Contains cs sub)"

text \<open>\<open>strings.ReplaceAll s old new\<close> where \<open>old\<close> is one byte long (the program replaces
  \<open>" "\<close> by \<open>"-"\<close>).\<close>

definition ReplaceAll :: "string \<Rightarrow> char \<Rightarrow> string \<Rightarrow> string" where
  "ReplaceAll s old new = concat (map (\<lambda>c. if c = old then new else [c]) s)"

text \<open>Splitting a string at every occurrence of a byte: \<open>strings.Split\<close> with a one-byte
  separator.  The result is never empty.\<close>

fun split_on :: "char \<Rightarrow> string \<Rightarrow> string list" where
  "split_on d [] = [[]]"
| "split_on d (c # cs) =
     (if c = d then [] # split_on d cs
      else (case split_on d cs of [] \<Rightarrow> [[c]] | w # ws \<Rightarrow> (c # w) # ws))"

text \<open>Every element preceded by a separator: \<open>slashed [a, b] = /a/b\<close>.  Dropping the
  first byte gives \<open>strings.Join elems "/"\<close>.\<close>

definition slashed :: "string list \<Rightarrow> string" where
  "slashed cs = concat (map (\<lambda>c. sep # c) cs)"

definition IsAbs :: "string \<Rightarrow> bool" where
  "IsAbs p = (case p of [] \<Rightarrow> False | c # _ \<Rightarrow> c = sep)"

text \<open>
  \<open>filepath.Clean\<close>: the shortest path name equivalent to the argument by purely lexical
  processing.  Empty elements and \<open>.\<close> are dropped, an inner \<open>..\<close> removes the element
  before it, a \<open>..\<close> at the start of a rooted path is dropped, and at the start of a
  relative path it is kept.  \<open>clean_elems\<close> processes the elements from left to right;
  its second argument is the output so far, last element first.
\<close>

fun clean_elems :: "bool \<Rightarrow> string list \<Rightarrow> string list \<Rightarrow> string list" where
  "clean_elems rooted out [] = rev out"
| "clean_elems rooted out (c # cs) =
     (if c = [] \<or> c = ''.'' then clean_elems rooted out cs
      else if c = ''..'' then
        (case out of
           [] \<Rightarrow> if rooted then clean_elems rooted [] cs else clean_elems rooted [''..''] cs
         | a # as \<Rightarrow> if a = ''..'' then clean_elems rooted (''..'' # out) cs
                     else clean_elems rooted as cs)
      else clean_elems rooted (c # out) cs)"

definition Clean :: "string \<Rightarrow> string" where
  "Clean p =
     (let rooted = IsAbs p; cs = clean_elems rooted [] (split_on sep p) in
      if rooted then (if cs = [] then [sep] else slashed cs)
      else (if cs = [] then ''.'' else tl (slashed cs)))"

text \<open>\<open>filepath.Join\<close>: leading empty elements are skipped, the rest is joined with
  separators and cleaned; when every element is empty the result is the empty string.\<close>

definition Join :: "string list \<Rightarrow> string" where
  "Join elem =
     (case dropWhile (\<lambda>e. e = []) elem of
        [] \<Rightarrow> []
      | es \<Rightarrow> Clean (tl (slashed es)))"

text \<open>\<open>filepath.Dir\<close>: everything up to and including the last separator, cleaned.\<close>

definition Dir :: "string \<Rightarrow> string" where
  "Dir p = Clean (rev (dropWhile (\<lambda>c. c \<noteq> sep) (rev p)))"

text \<open>\<open>filepath.Base\<close>: the last element of the path, trailing separators removed first.\<close>

definition Base :: "string \<Rightarrow> string" where
  "Base p =
     (if p = [] then ''.''
      else
        (let q = rev (dropWhile (\<lambda>c. c = sep) (rev p));
             b = rev (takeWhile (\<lambda>c. c \<noteq> sep) (rev q))
         in if b = [] then [sep] else b))"

text \<open>\<open>filepath.Ext\<close>: the suffix of the last element that starts at its last dot, or the
  empty string when the last element has no dot.\<close>

definition Ext :: "string \<Rightarrow> string" where
  "Ext p =
     (let e = rev (takeWhile (\<lambda>c. c \<noteq> sep) (rev p)) in
      if CHR ''.'' \<in> set e then CHR ''.'' # rev (takeWhile (\<lambda>c. c \<noteq> CHR ''.'') (rev e))
      else [])"

subsection \<open>Where a path leads\<close>

text \<open>
  Where an absolute path leads in a file system without symbolic links: the names of the
  directories from the root down, found by walking the elements of the path.  An empty
  element and \<open>.\<close> stay, \<open>..\<close> goes up and stays at the root.
\<close>

definition resolve_step :: "string list \<Rightarrow> string \<Rightarrow> string list" where
  "resolve_step up c =
     (if c = [] \<or> c = ''.'' then up else if c = ''..'' then tl up else c # up)"

definition resolve :: "string \<Rightarrow> string list" where
  "resolve p = rev (foldl resolve_step [] (split_on sep p))"

subsection \<open>Shell patterns: \<open>filepath.Match\<close>\<close>

text \<open>
  A pattern is a sequence of terms: \<open>*\<close> matches any run of bytes other than the separator,
  \<open>?\<close> one byte other than the separator, \<open>[...]\<close> one byte of a non-empty class of
  ranges (negated after \<open>[^\<close>), \<open>\c\<close> the byte \<open>c\<close>, and any other byte itself.  A
  malformed pattern makes \<open>filepath.Match\<close> return \<open>ErrBadPattern\<close> with the result
  \<open>false\<close>; the classifier drops the error and keeps the \<open>false\<close>.  The model works on
  bytes, which is what Go does on ASCII names and patterns.
\<close>

datatype glob_term = Star | Any_char | Lit char | Class bool "(char \<times> char) list"

text \<open>\<open>getEsc\<close>: one byte of a class, possibly escaped.  \<open>None\<close> is \<open>ErrBadPattern\<close>: the
  class ends here, or the pattern ends before the class is closed.\<close>

fun getEsc :: "string \<Rightarrow> (char \<times> string) option" where
  "getEsc [] = None"
| "getEsc (c # cs) =
     (if c = CHR ''-'' \<or> c = CHR '']'' then None
      else if c = CHR 0x5C then
        (case cs of [] \<Rightarrow> None | [e] \<Rightarrow> None | e # r # rs \<Rightarrow> Some (e, r # rs))
      else (case cs of [] \<Rightarrow> None | r # rs \<Rightarrow> Some (c, r # rs)))"

text \<open>One range of a class: a byte, or two bytes with \<open>-\<close> between them.\<close>

definition scan_range :: "string \<Rightarrow> ((char \<times> char) \<times> string) option" where
  "scan_range p =
     (case getEsc p of
        None \<Rightarrow> None
      | Some (lo, p1) \<Rightarrow>
          (case p1 of
             d # p2 \<Rightarrow>
               if d = CHR ''-'' then
                 (case getEsc p2 of
                    None \<Rightarrow> None
                  | Some (hi, p3) \<Rightarrow> Some ((lo, hi), p3))
               else Some ((lo, lo), p1)
           | [] \<Rightarrow> None))"

text \<open>The ranges of a class up to its closing bracket, which closes the class once a range
  has been read.  The first argument counts down the ranges that may still be read, so
  that the recursion is structural; \<open>scan_class\<close> starts it above the length of the
  pattern, which always suffices (\<open>scan_ranges_fuel\<close> below).\<close>

fun scan_ranges :: "nat \<Rightarrow> (char \<times> char) list \<Rightarrow> string \<Rightarrow> ((char \<times> char) list \<times> string) option" where
  "scan_ranges 0 rs p = None"
| "scan_ranges (Suc n) rs p =
     (case p of
        c # cs \<Rightarrow>
          if c = CHR '']'' \<and> rs \<noteq> [] then Some (rev rs, cs)
          else (case scan_range p of
                  None \<Rightarrow> None
                | Some (r, rest) \<Rightarrow> scan_ranges n (r # rs) rest)
      | [] \<Rightarrow> None)"

definition scan_class :: "string \<Rightarrow> (glob_term \<times> string) option" where
  "scan_class p =
     (let (negated, q) = (case p of c # cs \<Rightarrow> if c = CHR ''^'' then (True, cs) else (False, p)
                                  | [] \<Rightarrow> (False, p))
      in map_option (\<lambda>(rs, rest). (Class negated rs, rest)) (scan_ranges (Suc (length q)) [] q))"

text \<open>The terms of a pattern; \<open>None\<close> when the pattern is malformed.  The first argument
  bounds the number of terms and is started with the length of the pattern, which always
  suffices (\<open>scan_pattern_fuel\<close> below).\<close>

fun scan_pattern :: "nat \<Rightarrow> string \<Rightarrow> glob_term list option" where
  "scan_pattern n [] = Some []"
| "scan_pattern 0 (c # cs) = None"
| "scan_pattern (Suc n) (c # cs) =
     (if c = CHR ''*'' then map_option ((#) Star) (scan_pattern n cs)
      else if c = CHR ''?'' then map_option ((#) Any_char) (scan_pattern n cs)
      else if c = CHR 0x5C then
        (case cs of [] \<Rightarrow> None | e # r \<Rightarrow> map_option ((#) (Lit e)) (scan_pattern n r))
      else if c = CHR ''['' then
        (case scan_class cs of
           None \<Rightarrow> None
         | Some (t, r) \<Rightarrow> map_option ((#) t) (scan_pattern n r))
      else map_option ((#) (Lit c)) (scan_pattern n cs))"

definition in_class :: "bool \<Rightarrow> (char \<times> char) list \<Rightarrow> char \<Rightarrow> bool" where
  "in_class negated rs c =
     ((\<exists>(lo, hi) \<in> set rs. (of_char lo :: nat) \<le> of_char c \<and> (of_char c :: nat) \<le> of_char hi)
        \<noteq> negated)"

fun match_terms :: "glob_term list \<Rightarrow> string \<Rightarrow> bool" where
  "match_terms [] s = (s = [])"
| "match_terms (Star # ts) [] = match_terms ts []"
| "match_terms (Star # ts) (c # cs) =
     (match_terms ts (c # cs) \<or> (c \<noteq> sep \<and> match_terms (Star # ts) cs))"
| "match_terms (t # ts) [] = False"
| "match_terms (Any_char # ts) (c # cs) = (c \<noteq> sep \<and> match_terms ts cs)"
| "match_terms (Lit x # ts) (c # cs) = (c = x \<and> match_terms ts cs)"
| "match_terms (Class negated rs # ts) (c # cs) = (in_class negated rs c \<and> match_terms ts cs)"

definition Match :: "string \<Rightarrow> string \<Rightarrow> bool" where
  "Match pattern name =
     (case scan_pattern (length pattern) pattern of
        None \<Rightarrow> False
      | Some ts \<Rightarrow> match_terms ts name)"

section \<open>The permission classifier (\<open>makeFilesExecutable\<close>, installer)\<close>

text \<open>
  The body of the function that \<open>makeFilesExecutable\<close> passes to \<open>filepath.Walk\<close>, for a
  path that is not a directory: the flag \<open>isExecutable\<close> starts false and is set by the
  extension test, by the name test, and by the first pattern that matches (the loop over
  the patterns stops there).  The file gets mode \<open>0755\<close> when the flag is set.
\<close>

fun match_patterns :: "string list \<Rightarrow> string \<Rightarrow> bool \<Rightarrow> bool" where
  "match_patterns [] name isExecutable = isExecutable"
| "match_patterns (pattern # patterns) name isExecutable =
     (if Match pattern name then True else match_patterns patterns name isExecutable)"

definition isExecutable :: "string \<Rightarrow> string list \<Rightarrow> bool" where
  "isExecutable path patterns =
     (let flag0 = False;
          ext = ToLower (Ext path);
          flag1 = (if ext = ''.sh'' \<or> ext = ''.bin'' \<or> ext = ''.x86'' \<or> ext = ''.x86_64'' \<or> ext = []
                   then True else flag0);
          baseName = ToLower (Base path);
          flag2 = (if Contains baseName ''run'' \<or> Contains baseName ''start'' \<or>
                      Contains baseName ''game'' \<or> Contains baseName ''celeste''
                   then True else flag1)
      in match_patterns patterns (Base path) flag2)"

text \<open>The patterns the installer passes at both of its calls of \<open>makeFilesExecutable\<close>.\<close>

definition exec_patterns :: "string list" where
  "exec_patterns = [''*.sh'', ''*.bin'', ''*.x86'', ''*.x86_64'']"

section \<open>Data model\<close>

text \<open>The configuration (\<open>Config\<close>, \<open>DesktopEntryConfig\<close> in the installer).  A
  \<open>float64\<close> read from JSON is a finite number and is modelled by the real it denotes.\<close>

record DesktopEntryConfig =
  Name :: string
  Exec :: string
  Icon :: string
  Categories :: string
  Type :: string
  Terminal :: bool
  Comment :: string

record Config =
  InstallPath :: string
  IconPath :: string
  BannerPath :: string
  GameAssets :: "string list"
  DLLPath :: string
  ExecPath :: string
  ExecDirs :: "string list"
  DesktopEntry :: DesktopEntryConfig
  MinRequiredSpaceGB :: real

text \<open>The install record as the installer declares it (eight fields).  A \<open>time.Time\<close> is
  modelled by its instant, in nanoseconds.\<close>

record InstallInfo =
  GameName :: string
  InstallPath :: string
  InstallDate :: int
  DesktopFile :: string
  MenuFile :: string
  InstallerPath :: string
  InstallerDir :: string
  UninstallerPath :: string

text \<open>The install record as the uninstaller declares it: the same struct name in the
  uninstaller's own source file, with seven fields (there is no \<open>UninstallerPath\<close>).\<close>

record InstallInfoU =
  u_GameName :: string
  u_InstallPath :: string
  u_InstallDate :: int
  u_DesktopFile :: string
  u_MenuFile :: string
  u_InstallerPath :: string
  u_InstallerDir :: string

text \<open>The zero value of the uninstaller's struct, which \<open>json.Unmarshal\<close> fills in.\<close>

definition zero_InstallInfoU :: InstallInfoU where
  "zero_InstallInfoU =
     \<lparr>u_GameName = [], u_InstallPath = [], u_InstallDate = 0, u_DesktopFile = [],
      u_MenuFile = [], u_InstallerPath = [], u_InstallerDir = []\<rparr>"

section \<open>The manifest store\<close>

text \<open>
  A manifest is a JSON object.  \<open>encoding/json\<close> is not part of the program; the model
  keeps a JSON document as the list of its members in order, a member being a key and a
  value.  A value is a string (the text it denotes, escapes decoded), the time stamp of the
  member \<open>install_date\<close> (a JSON string in RFC 3339 form, which \<open>time.Time\<close> writes and
  reads back as the same instant), \<open>null\<close>, or anything else (a number, a boolean, an
  array, an object).
\<close>

datatype json = JString string | JTime int | JNull | JOther

text \<open>
  \<open>json.Marshal\<close> writes a Go string as valid UTF-8: every byte that does not begin a
  well-formed UTF-8 sequence is replaced by the three bytes of U+FFFD, and reading the
  text back gives the string so changed.  \<open>rune_len\<close> is the length of the well-formed
  sequence at the head of a list of byte values, or 0 when there is none (the first byte
  and the range of the second byte are those of \<open>utf8.DecodeRuneInString\<close>); \<open>coerce\<close>
  copies a string, its first argument being the number of bytes of the current sequence
  still to copy.
\<close>

definition cont_byte :: "nat \<Rightarrow> bool" where
  "cont_byte b = (0x80 \<le> b \<and> b \<le> 0xBF)"

definition rune_len :: "nat list \<Rightarrow> nat" where
  "rune_len bs =
     (case bs of
        [] \<Rightarrow> 0
      | b0 # r0 \<Rightarrow>
          if b0 < 0x80 then 1
          else if 0xC2 \<le> b0 \<and> b0 \<le> 0xDF then
            (case r0 of b1 # r1 \<Rightarrow> if cont_byte b1 then 2 else 0 | [] \<Rightarrow> 0)
          else if 0xE0 \<le> b0 \<and> b0 \<le> 0xEF then
            (case r0 of
               b1 # b2 # r2 \<Rightarrow>
                 if (if b0 = 0xE0 then 0xA0 else 0x80) \<le> b1
                    \<and> b1 \<le> (if b0 = 0xED then 0x9F else 0xBF) \<and> cont_byte b2
                 then 3 else 0
             | _ \<Rightarrow> 0)
          else if 0xF0 \<le> b0 \<and> b0 \<le> 0xF4 then
            (case r0 of
               b1 # b2 # b3 # r3 \<Rightarrow>
                 if (if b0 = 0xF0 then 0x90 else 0x80) \<le> b1
                    \<and> b1 \<le> (if b0 = 0xF4 then 0x8F else 0xBF) \<and> cont_byte b2 \<and> cont_byte b3
                 then 4 else 0
             | _ \<Rightarrow> 0)
          else 0)"

definition replacement_char :: string where
  "replacement_char = [CHR 0xEF, CHR 0xBF, CHR 0xBD]"

fun coerce :: "nat \<Rightarrow> string \<Rightarrow> string" where
  "coerce k [] = []"
| "coerce k (c # cs) =
     (if 0 < k then c # coerce (k - 1) cs
      else (let n = rune_len (map of_char (c # cs)) in
            if n = 0 then replacement_char @ coerce 0 cs else c # coerce (n - 1) cs))"

definition utf8_coerce :: "string \<Rightarrow> string" where
  "utf8_coerce s = coerce 0 s"

type_synonym json_object = "(string \<times> json) list"

text \<open>What a file holds: a JSON object, or bytes that do not parse as one.\<close>

datatype content = Json_text json_object | Other_bytes

type_synonym files = "string \<Rightarrow> content option"

text \<open>\<open>json.MarshalIndent(installInfo, "", "  ")\<close> on the installer's struct: one member
  per field, named by the field's \<open>json\<close> tag, in the order of the declaration, every
  string written as valid UTF-8.\<close>

definition marshal_InstallInfo :: "InstallInfo \<Rightarrow> json_object" where
  "marshal_InstallInfo i =
     [(''game_name'', JString (utf8_coerce (GameName i))),
      (''install_path'', JString (utf8_coerce (InstallInfo.InstallPath i))),
      (''install_date'', JTime (InstallDate i)),
      (''desktop_file'', JString (utf8_coerce (DesktopFile i))),
      (''menu_file'', JString (utf8_coerce (MenuFile i))),
      (''installer_path'', JString (utf8_coerce (InstallerPath i))),
      (''installer_dir'', JString (utf8_coerce (InstallerDir i))),
      (''uninstaller_path'', JString (utf8_coerce (UninstallerPath i)))]"









text \<open>The name under which the application's files are filed: \<open>strings.ToLower\<close>, then
  every space replaced by a hyphen (\<open>saveInstallInfo\<close> and \<open>createShortcut\<close>).\<close>

definition appSlug :: "string \<Rightarrow> string" where
  "appSlug name = ReplaceAll (ToLower name) (CHR '' '') ''-''"

text \<open>The directory and the file \<open>saveInstallInfo\<close> writes to.\<close>

definition save_logsDir :: "Config \<Rightarrow> string" where
  "save_logsDir cfg = Join [Config.InstallPath cfg, ''logs'']"

definition save_infoFilePath :: "Config \<Rightarrow> string" where
  "save_infoFilePath cfg =
     Join [save_logsDir cfg, appSlug (Name (DesktopEntry cfg)) @ ''-install.json'']"

text \<open>What \<open>saveInstallInfo\<close> reads from its environment: whether the two file-system
  calls succeed, the clock and \<open>os.Executable()\<close> (its error is dropped by the program,
  the path is then empty).\<close>

record save_env =
  logs_MkdirAll_ok :: bool
  Now :: int
  Executable :: string
  WriteFile_ok :: bool

datatype save_error = LogsDirError | WriteError



text \<open>The manifest path \<open>uninstallGame\<close> recomputes from the record, \<open>args0\<close> being
  \<open>os.Args[0]\<close> of the uninstaller.\<close>

definition uninstall_infoFilePath :: "string \<Rightarrow> InstallInfoU \<Rightarrow> string" where
  "uninstall_infoFilePath args0 info =
     Join [Dir args0, ''logs'', ToLower (u_GameName info) @ ''-install.json'']"

section \<open>The installer (\<open>startInstallation\<close>)\<close>

subsection \<open>The environment of a run\<close>

text \<open>
  What the operating system answers is an input of the model.  An archive member is its
  stored name and whether it is a directory; \<open>os.Stat\<close> answers that the path exists,
  that it does not (\<open>os.IsNotExist\<close>), or another error; each file-system call of the
  extraction loop succeeds or fails as the outcome for the entry says, entries being
  numbered in the order in which the loop reaches them.
\<close>

record zip_File =
  f_Name :: string
  f_IsDir :: bool

datatype stat_result = Stat_ok | Stat_not_exist | Stat_error

text \<open>What \<open>filepath.Walk\<close> hands to its function for a path: an error (the path could
  not be examined, or the directory could not be read), a directory, or a file.\<close>

datatype walked = Walk_error | Walk_dir | Walk_file

record entry_outcome =
  dir_MkdirAll_ok :: bool
  parent_MkdirAll_ok :: bool
  Create_ok :: bool
  Open_ok :: bool
  Copy_ok :: bool

record install_env =
  zip_OpenReader :: "string \<Rightarrow> zip_File list option"
  Stat :: "string \<Rightarrow> stat_result"
  Statfs :: "string \<Rightarrow> (64 word \<times> 64 word) option"
  root_MkdirAll_ok :: bool
  entry_os :: "nat \<Rightarrow> entry_outcome"
  Chmod_ok :: "string \<Rightarrow> bool"
  Walk :: "string \<Rightarrow> (string \<times> walked) list"
  copyFile_ok :: bool
  Args0 :: string
  HOME :: string
  shortcut_checked :: bool
  appDir_MkdirAll_ok :: bool
  menu_WriteFile_ok :: bool
  desktop_WriteFile_ok :: bool
  save :: save_env

text \<open>The messages of the program, by kind: those of \<open>displayError\<close>, after which
  \<open>startInstallation\<close> returns, and those the worker sends on \<open>errorChan\<close>.\<close>

datatype fatal =
    ArchiveOpenError string
  | ArchivesEmpty
  | DiskSpaceCheckError
  | NotEnoughSpace real real
  | InstallRootError

datatype warning =
    PathTraversal
  | MkdirFailed
  | CreateFailed
  | OpenFailed
  | CopyFailed
  | ChmodFailed
  | UninstallerCopyFailed

text \<open>The lines the worker writes to the log when a call fails (\<open>log.Printf\<close>); the lines
  that only tell what is being done are left out.\<close>

datatype logged =
    ChmodMainLog
  | ChmodLog string
  | UninstallerCopyLog
  | MenuShortcutLog
  | DesktopShortcutLog
  | SaveLog save_error

text \<open>What a run does, in order.  A file-system call carries its path and whether it
  succeeded; \<open>Log_error\<close> is a line in the log, \<open>Warning_box\<close> the message box that
  \<open>createShortcut\<close> opens itself; the three \<open>Send\<close> actions are the sends on
  \<open>updateChan\<close>, \<open>errorChan\<close> and \<open>doneChan\<close>; \<open>Panic\<close> is the nil dereference of a
  missing entry of \<open>zipFiles\<close>.\<close>

datatype action =
    Set_button_enabled bool
  | Display_error fatal
  | Mkdir_all string bool
  | Create_file string bool
  | Open_entry string bool
  | Copy_data string bool
  | Chmod_0755 string bool
  | Copy_file string string bool
  | Write_file string bool
  | Log_error logged
  | Warning_box
  | Send_update nat
  | Send_error warning
  | Send_done
  | Panic

subsection \<open>Free space (\<open>checkDiskSpace\<close>)\<close>

text \<open>The conversion \<open>float64(freeSpace)\<close> of a \<open>uint64\<close>: exact below \<open>2^53\<close>, and
  otherwise rounded to 53 significant bits, to nearest and to even on a tie.\<close>

fun bitlen :: "nat \<Rightarrow> nat" where
  "bitlen n = (if n = 0 then 0 else Suc (bitlen (n div 2)))"

declare bitlen.simps [simp del]

definition float64_of_nat :: "nat \<Rightarrow> real" where
  "float64_of_nat n =
     (if n < 2 ^ 53 then real n
      else
        (let e = bitlen n - 53;
             q = n div 2 ^ e;
             r = n mod 2 ^ e;
             half = 2 ^ (e - 1);
             q' = (if half < r \<or> (r = half \<and> odd q) then q + 1 else q)
         in real (q' * 2 ^ e)))"

text \<open>\<open>Statfs\<close> answers \<open>Bavail\<close> and \<open>Bsize\<close>; their product is taken in \<open>uint64\<close> and
  wraps.  The division by \<open>1024 * 1024 * 1024\<close> is exact in \<open>float64\<close>.\<close>

definition checkDiskSpace :: "install_env \<Rightarrow> Config \<Rightarrow> real option" where
  "checkDiskSpace env cfg =
     (let dirPath = Config.InstallPath cfg;
          dirPath =
            (if Stat env dirPath = Stat_not_exist
             then (let parent = Dir dirPath in
                   if Stat env parent = Stat_not_exist then ''.'' else parent)
             else dirPath)
      in case Statfs env dirPath of
           None \<Rightarrow> None
         | Some (bavail, bsize) \<Rightarrow>
             (let freeSpace = bavail * bsize
              in Some (float64_of_nat (unat freeSpace) / (1024 * 1024 * 1024))))"

subsection \<open>The worker: extraction\<close>

text \<open>One pass of the inner loop over \<open>r.File\<close>: the new value of \<open>extractedFiles\<close> and
  what the pass did.  Every \<open>continue\<close> of the source is a branch that leaves the count as it
  was.  The result of \<open>os.MkdirAll\<close> for a directory entry is not looked at.\<close>

definition extract_file :: "string \<Rightarrow> entry_outcome \<Rightarrow> zip_File \<Rightarrow> nat \<Rightarrow> nat \<times> action list" where
  "extract_file installPath oc f extractedFiles =
     (let fpath = Join [installPath, f_Name f] in
      if \<not> HasPrefix fpath (Clean installPath @ [sep]) then
        (extractedFiles, [Send_error PathTraversal])
      else if f_IsDir f then
        (Suc extractedFiles,
         [Mkdir_all fpath (dir_MkdirAll_ok oc), Send_update (Suc extractedFiles)])
      else if \<not> parent_MkdirAll_ok oc then
        (extractedFiles, [Mkdir_all (Dir fpath) False, Send_error MkdirFailed])
      else if \<not> Create_ok oc then
        (extractedFiles,
         [Mkdir_all (Dir fpath) True, Create_file fpath False, Send_error CreateFailed])
      else if \<not> Open_ok oc then
        (extractedFiles,
         [Mkdir_all (Dir fpath) True, Create_file fpath True, Open_entry (f_Name f) False,
          Send_error OpenFailed])
      else if \<not> Copy_ok oc then
        (extractedFiles,
         [Mkdir_all (Dir fpath) True, Create_file fpath True, Open_entry (f_Name f) True,
          Copy_data fpath False, Send_error CopyFailed])
      else
        (Suc extractedFiles,
         [Mkdir_all (Dir fpath) True, Create_file fpath True, Open_entry (f_Name f) True,
          Copy_data fpath True, Send_update (Suc extractedFiles)]))"

text \<open>The inner loop; \<open>k\<close> is the number of the first entry.\<close>

fun extract_files ::
  "string \<Rightarrow> (nat \<Rightarrow> entry_outcome) \<Rightarrow> zip_File list \<Rightarrow> nat \<Rightarrow> nat \<Rightarrow> nat \<times> action list" where
  "extract_files installPath oc [] k extractedFiles = (extractedFiles, [])"
| "extract_files installPath oc (f # fs) k extractedFiles =
     (let (n, done1) = extract_file installPath (oc k) f extractedFiles;
          (n', done2) = extract_files installPath oc fs (Suc k) n
      in (n', done1 @ done2))"

text \<open>The outer loop over \<open>config.GameAssets\<close>, each archive looked up in \<open>zipFiles\<close>.
  The first component of the result tells whether the loop ended by a panic.\<close>

fun extract_assets ::
  "string \<Rightarrow> (nat \<Rightarrow> entry_outcome) \<Rightarrow> (string \<Rightarrow> zip_File list option) \<Rightarrow> string list \<Rightarrow>
   nat \<Rightarrow> nat \<Rightarrow> bool \<times> nat \<times> action list" where
  "extract_assets installPath oc zipFiles [] k extractedFiles = (False, extractedFiles, [])"
| "extract_assets installPath oc zipFiles (asset # assets) k extractedFiles =
     (case zipFiles asset of
        None \<Rightarrow> (True, extractedFiles, [Panic])
      | Some r \<Rightarrow>
          (let (n, done1) = extract_files installPath oc r k extractedFiles;
               (panicked, n', done2) = extract_assets installPath oc zipFiles assets (k + length r) n
           in (panicked, n', done1 @ done2)))"

subsection \<open>The worker: finalization\<close>

text \<open>\<open>saveInstallInfo\<close> (installer): the global \<open>installInfo\<close> and the files are passed in
  and returned, with the two file-system calls it makes.  The logs directory is made
  first; the record is filled in after that and before the file is written.
  \<open>json.MarshalIndent\<close> returns an error for this struct only when the year of the install
  date is outside 0 to 9999, which the clock does not read; that branch is left out.\<close>

definition saveInstallInfo ::
  "save_env \<Rightarrow> Config \<Rightarrow> InstallInfo \<Rightarrow> files \<Rightarrow>
   save_error option \<times> InstallInfo \<times> files \<times> action list" where
  "saveInstallInfo env cfg installInfo fs =
     (let logsDir = Join [Config.InstallPath cfg, ''logs''] in
      if \<not> logs_MkdirAll_ok env
      then (Some LogsDirError, installInfo, fs, [Mkdir_all logsDir False])
      else
        (let gameName = ReplaceAll (ToLower (Name (DesktopEntry cfg))) (CHR '' '') ''-'';
             infoFilePath = Join [logsDir, gameName @ ''-install.json''];
             info = installInfo
               \<lparr>GameName := Name (DesktopEntry cfg),
                InstallInfo.InstallPath := Config.InstallPath cfg,
                InstallDate := Now env,
                InstallerPath := Executable env,
                InstallerDir := Dir (Executable env),
                UninstallerPath := Join [Config.InstallPath cfg, ''uninstaller'']\<rparr>
         in if \<not> WriteFile_ok env
            then (Some WriteError, info, fs,
                  [Mkdir_all logsDir True, Write_file infoFilePath False])
            else (None, info, fs(infoFilePath \<mapsto> Json_text (marshal_InstallInfo info)),
                  [Mkdir_all logsDir True, Write_file infoFilePath True])))"

text \<open>\<open>makeFilesExecutable\<close>: the function given to \<open>filepath.Walk\<close> is called once for
  every path of the walk and always returns \<open>nil\<close>, so the walk goes on after an error.
  A path handed over with an error is passed by without a word; a failing \<open>chmod\<close> is
  logged.\<close>

definition makeFilesExecutable :: "install_env \<Rightarrow> string \<Rightarrow> string list \<Rightarrow> action list" where
  "makeFilesExecutable env dir patterns =
     concat (map (\<lambda>(path, info).
                    case info of
                      Walk_error \<Rightarrow> []
                    | Walk_dir \<Rightarrow> []
                    | Walk_file \<Rightarrow>
                        if isExecutable path patterns then
                          (if \<not> Chmod_ok env path
                           then [Chmod_0755 path False, Log_error (ChmodLog path)]
                           else [Chmod_0755 path True])
                        else [])
                 (Walk env dir))"

definition localized_desktop :: string where
  \<comment> \<open>the UTF-8 bytes of the Russian name of the desktop folder\<close>
  "localized_desktop =
     [CHR 0xD0, CHR 0xA0, CHR 0xD0, CHR 0xB0, CHR 0xD0, CHR 0xB1, CHR 0xD0, CHR 0xBE,
      CHR 0xD1, CHR 0x87, CHR 0xD0, CHR 0xB8, CHR 0xD0, CHR 0xB9, CHR 0x20, CHR 0xD1,
      CHR 0x81, CHR 0xD1, CHR 0x82, CHR 0xD0, CHR 0xBE, CHR 0xD0, CHR 0xBB]"

text \<open>\<open>createShortcut\<close>, as far as the install record and the file system go: the text of
  the desktop entry, the search for an icon (which only reads) and the commands run
  afterwards are left out.  The result of \<open>os.MkdirAll\<close> for the applications directory
  is not looked at.  The function is called from the worker; when the menu entry cannot
  be written it writes to the log and shows its own message box, when the desktop entry
  cannot be written it writes to the log.\<close>

definition createShortcut :: "install_env \<Rightarrow> Config \<Rightarrow> InstallInfo \<Rightarrow> InstallInfo \<times> action list" where
  "createShortcut env cfg installInfo =
     (let appDir = Join [HOME env, ''.local'', ''share'', ''applications''];
          appName = appSlug (Name (DesktopEntry cfg));
          desktopFile = Join [appDir, appName @ ''.desktop''];
          done0 = [Mkdir_all appDir (appDir_MkdirAll_ok env)];
          (info1, done1) =
            (if \<not> menu_WriteFile_ok env
             then (installInfo,
                   done0 @ [Write_file desktopFile False, Log_error MenuShortcutLog, Warning_box])
             else (installInfo\<lparr>MenuFile := desktopFile\<rparr>, done0 @ [Write_file desktopFile True]));
          desktopDir = Join [HOME env, ''Desktop''];
          desktopDir = (if Stat env desktopDir = Stat_not_exist
                        then Join [HOME env, localized_desktop] else desktopDir)
      in if Stat env desktopDir = Stat_ok then
           (let desktopShortcut = Join [desktopDir, appName @ ''.desktop''] in
            if \<not> desktop_WriteFile_ok env
            then (info1, done1 @ [Write_file desktopShortcut False, Log_error DesktopShortcutLog])
            else (info1\<lparr>DesktopFile := desktopShortcut\<rparr>, done1 @ [Write_file desktopShortcut True]))
         else (info1, done1))"

text \<open>Everything the worker does after the extraction loops.\<close>

definition finalize ::
  "install_env \<Rightarrow> Config \<Rightarrow> InstallInfo \<Rightarrow> files \<Rightarrow> action list \<times> InstallInfo \<times> files" where
  "finalize env cfg installInfo fs =
     (let installPath = Config.InstallPath cfg;
          done1 =
            (if ExecPath cfg \<noteq> [] then
               (let execFullPath = Join [installPath, ExecPath cfg] in
                if \<not> Chmod_ok env execFullPath
                then [Chmod_0755 execFullPath False, Log_error ChmodMainLog,
                      Send_error ChmodFailed]
                else [Chmod_0755 execFullPath True])
             else []);
          done2 =
            (if ExecDirs cfg \<noteq> [] then
               concat (map (\<lambda>dir. makeFilesExecutable env (Join [installPath, dir]) exec_patterns)
                           (ExecDirs cfg))
             else makeFilesExecutable env installPath exec_patterns);
          installerDir = Dir (Args0 env);
          uninstallerSrc = Join [installerDir, ''uninstaller''];
          uninstallerDst = Join [installPath, ''uninstaller''];
          done3 =
            (if \<not> copyFile_ok env
             then [Copy_file uninstallerSrc uninstallerDst False, Log_error UninstallerCopyLog,
                   Send_error UninstallerCopyFailed]
             else [Copy_file uninstallerSrc uninstallerDst True]);
          (info1, done4) =
            (if shortcut_checked env then createShortcut env cfg installInfo
             else (installInfo, []));
          (err, info2, fs2, saving) = saveInstallInfo (save env) cfg info1 fs;
          done5 = (case err of
                     Some e \<Rightarrow> saving @ [Log_error (SaveLog e)]
                   | None \<Rightarrow> saving)
      in (done1 @ done2 @ done3 @ done4 @ done5 @ [Send_done], info2, fs2))"

text \<open>The second goroutine of \<open>startInstallation\<close>.\<close>

definition worker ::
  "install_env \<Rightarrow> Config \<Rightarrow> (string \<Rightarrow> zip_File list option) \<Rightarrow> InstallInfo \<Rightarrow> files \<Rightarrow>
   action list \<times> InstallInfo \<times> files" where
  "worker env cfg zipFiles installInfo fs =
     (let (panicked, extractedFiles, done1) =
            extract_assets (Config.InstallPath cfg) (entry_os env) zipFiles (GameAssets cfg) 0 0
      in if panicked then (done1, installInfo, fs)
         else (let (done2, info, fs') = finalize env cfg installInfo fs
               in (done1 @ done2, info, fs')))"

subsection \<open>The listener\<close>

text \<open>
  The three channels are unbuffered and the worker is their only sender: each send blocks
  until the listener has taken the value, so the listener receives exactly the worker's
  sends, in the worker's order.  The listener is therefore a function of that sequence.
  It returns at the completion signal; at the end of a sequence without one it is still
  waiting.
\<close>

datatype event = Update nat | Warn warning | Completed

fun event_of :: "action \<Rightarrow> event option" where
  "event_of (Send_update n) = Some (Update n)"
| "event_of (Send_error w) = Some (Warn w)"
| "event_of Send_done = Some Completed"
| "event_of _ = None"

definition sends :: "action list \<Rightarrow> event list" where
  "sends acts = List.map_filter event_of acts"

record ui =
  bar_value :: nat
  bar_percent :: nat
  shown :: "warning list"
  finished :: bool

fun listener :: "nat \<Rightarrow> event list \<Rightarrow> ui \<Rightarrow> ui" where
  "listener totalFiles [] u = u"
| "listener totalFiles (Update progress # es) u =
     listener totalFiles es
       (u\<lparr>bar_value := progress, bar_percent := progress * 100 div totalFiles\<rparr>)"
| "listener totalFiles (Warn errMsg # es) u =
     listener totalFiles es (u\<lparr>shown := shown u @ [errMsg]\<rparr>)"
| "listener totalFiles (Completed # es) u =
     u\<lparr>bar_value := totalFiles, bar_percent := 100, finished := True\<rparr>"

subsection \<open>\<open>startInstallation\<close>\<close>

text \<open>The first loop: every archive is opened and put into the map \<open>zipFiles\<close> under its
  path, and the members are counted.  \<open>Inl\<close> is the archive that could not be opened.\<close>

fun openAssets ::
  "install_env \<Rightarrow> string list \<Rightarrow> (string \<Rightarrow> zip_File list option) \<Rightarrow> nat \<Rightarrow>
   string + ((string \<Rightarrow> zip_File list option) \<times> nat)" where
  "openAssets env [] zipFiles totalFiles = Inr (zipFiles, totalFiles)"
| "openAssets env (asset # assets) zipFiles totalFiles =
     (case zip_OpenReader env asset of
        None \<Rightarrow> Inl asset
      | Some r \<Rightarrow> openAssets env assets (zipFiles(asset \<mapsto> r)) (totalFiles + length r))"

text \<open>The outcome of a run: its state, what it did in order, the number of archive members
  (0 when an archive could not be opened), the display as the listener left it (\<open>None\<close>
  when the listener was never started), the install record and the files.\<close>

datatype run_state = Failed fatal | Done | Crashed

record run =
  r_state :: run_state
  r_trace :: "action list"
  r_totalFiles :: nat
  r_ui :: "ui option"
  r_info :: InstallInfo
  r_files :: files

definition failed :: "fatal \<Rightarrow> action list \<Rightarrow> nat \<Rightarrow> InstallInfo \<Rightarrow> files \<Rightarrow> run" where
  "failed why early totalFiles installInfo fs =
     \<lparr>r_state = Failed why,
      r_trace = [Set_button_enabled False] @ early @ [Display_error why, Set_button_enabled True],
      r_totalFiles = totalFiles, r_ui = None, r_info = installInfo, r_files = fs\<rparr>"

text \<open>A whole run: the checks made on the calling thread, then the worker and the
  listener.  The run is \<open>Done\<close> when the listener has received the completion signal.\<close>

definition startInstallation :: "install_env \<Rightarrow> Config \<Rightarrow> InstallInfo \<Rightarrow> files \<Rightarrow> run" where
  "startInstallation env cfg installInfo fs =
     (case openAssets env (GameAssets cfg) Map.empty 0 of
        Inl asset \<Rightarrow> failed (ArchiveOpenError asset) [] 0 installInfo fs
      | Inr (zipFiles, totalFiles) \<Rightarrow>
          if totalFiles = 0 then failed ArchivesEmpty [] totalFiles installInfo fs
          else
            (case checkDiskSpace env cfg of
               None \<Rightarrow> failed DiskSpaceCheckError [] totalFiles installInfo fs
             | Some freeSpaceGB \<Rightarrow>
                 if freeSpaceGB < MinRequiredSpaceGB cfg then
                   failed (NotEnoughSpace freeSpaceGB (MinRequiredSpaceGB cfg)) [] totalFiles
                     installInfo fs
                 else if \<not> root_MkdirAll_ok env then
                   failed InstallRootError [Mkdir_all (Config.InstallPath cfg) False] totalFiles
                     installInfo fs
                 else
                   (let (acts, info, fs') = worker env cfg zipFiles installInfo fs;
                        u = listener totalFiles (sends acts)
                              \<lparr>bar_value = 0, bar_percent = 0, shown = [], finished = False\<rparr>
                    in \<lparr>r_state = (if finished u then Done else Crashed),
                        r_trace = [Set_button_enabled False,
                                   Mkdir_all (Config.InstallPath cfg) True] @ acts,
                        r_totalFiles = totalFiles, r_ui = Some u, r_info = info,
                        r_files = fs'\<rparr>)))"

section \<open>The uninstaller (\<open>uninstallGame\<close>)\<close>

text \<open>
  The file system the uninstaller works on is given by the places at which something
  exists, a place being where a path leads (symbolic links apart); a relative path is taken
  from the working directory.  What the operating system answers is an input: the paths at
  which \<open>os.Stat\<close> returns an error although something exists there, whether each of the
  three calls of \<open>os.Remove\<close> succeeds, whether \<open>os.RemoveAll\<close> succeeds, and, when it does
  not, which places it has removed before it returns its error (\<open>os.RemoveAll\<close> goes on
  after an error and removes what it can).
\<close>

type_synonym tree = "string list \<Rightarrow> bool"

record uninstall_env =
  u_Args0 :: string
  u_HOME :: string
  u_Getwd :: string
  Stat_denied :: "string \<Rightarrow> bool"
  menu_Remove_ok :: bool
  desktop_Remove_ok :: bool
  dir_RemoveAll_ok :: bool
  dir_RemoveAll_gone :: "string list \<Rightarrow> bool"
  manifest_Remove_ok :: bool

definition place :: "uninstall_env \<Rightarrow> string \<Rightarrow> string list" where
  "place env p = resolve (if IsAbs p then p else u_Getwd env @ [sep] @ p)"

text \<open>\<open>os.Stat\<close> returning no error; a successful \<open>os.Remove\<close>, which takes away the one
  place; a successful \<open>os.RemoveAll\<close>, which takes away the place and everything below it;
  and a failing \<open>os.RemoveAll\<close>, which takes away what it could of these.\<close>

definition os_Stat_ok :: "uninstall_env \<Rightarrow> tree \<Rightarrow> string \<Rightarrow> bool" where
  "os_Stat_ok env fs p = (fs (place env p) \<and> \<not> Stat_denied env p)"

definition os_Remove :: "uninstall_env \<Rightarrow> string \<Rightarrow> tree \<Rightarrow> tree" where
  "os_Remove env p fs = (\<lambda>q. fs q \<and> q \<noteq> place env p)"

definition os_RemoveAll :: "uninstall_env \<Rightarrow> string \<Rightarrow> tree \<Rightarrow> tree" where
  "os_RemoveAll env p fs = (\<lambda>q. fs q \<and> \<not> prefix (place env p) q)"

definition os_RemoveAll_failing :: "uninstall_env \<Rightarrow> string \<Rightarrow> tree \<Rightarrow> tree" where
  "os_RemoveAll_failing env p fs =
     (\<lambda>q. fs q \<and> \<not> (prefix (place env p) q \<and> dir_RemoveAll_gone env q))"

datatype u_action =
    Set_progress nat
  | Remove_file string bool
  | Remove_all string bool
  | Run_command string "string list"
  | Log_failure string

datatype uninstall_error = RemoveDirError

text \<open>\<open>uninstallGame\<close>: the error it returns, if any, what it did, in order, and the file
  system it leaves.\<close>

definition uninstallGame ::
  "uninstall_env \<Rightarrow> InstallInfoU \<Rightarrow> tree \<Rightarrow> uninstall_error option \<times> u_action list \<times> tree" where
  "uninstallGame env info fs =
     (let (step1, fs1) =
            (if u_MenuFile info \<noteq> [] \<and> os_Stat_ok env fs (u_MenuFile info) then
               (if \<not> menu_Remove_ok env
                then ([Remove_file (u_MenuFile info) False, Log_failure (u_MenuFile info)], fs)
                else ([Remove_file (u_MenuFile info) True], os_Remove env (u_MenuFile info) fs))
             else ([], fs));
          (step2, fs2) =
            (if u_DesktopFile info \<noteq> [] \<and> os_Stat_ok env fs1 (u_DesktopFile info) then
               (if \<not> desktop_Remove_ok env
                then ([Remove_file (u_DesktopFile info) False, Log_failure (u_DesktopFile info)],
                      fs1)
                else ([Remove_file (u_DesktopFile info) True],
                      os_Remove env (u_DesktopFile info) fs1))
             else ([], fs1));
          early = [Set_progress 0] @ step1 @ [Set_progress 1] @ step2 @ [Set_progress 2]
      in if u_InstallPath info \<noteq> [] \<and> os_Stat_ok env fs2 (u_InstallPath info)
            \<and> \<not> dir_RemoveAll_ok env then
           (Some RemoveDirError, early @ [Remove_all (u_InstallPath info) False],
            os_RemoveAll_failing env (u_InstallPath info) fs2)
         else
           (let (step3, fs3) =
                  (if u_InstallPath info \<noteq> [] \<and> os_Stat_ok env fs2 (u_InstallPath info)
                   then ([Remove_all (u_InstallPath info) True],
                         os_RemoveAll env (u_InstallPath info) fs2)
                   else ([], fs2));
                step4 =
                  [Run_command ''gtk-update-icon-cache''
                     [''-f'', ''-t'', Join [u_HOME env, ''.local'', ''share'', ''icons'']],
                   Run_command ''update-desktop-database''
                     [Join [u_HOME env, ''.local'', ''share'', ''applications'']]];
                infoFilePath = uninstall_infoFilePath (u_Args0 env) info;
                (step5, fs5) =
                  (if os_Stat_ok env fs3 infoFilePath then
                     (if \<not> manifest_Remove_ok env
                      then ([Remove_file infoFilePath False, Log_failure infoFilePath], fs3)
                      else ([Remove_file infoFilePath True], os_Remove env infoFilePath fs3))
                   else ([], fs3))
            in (None,
                early @ step3 @ [Set_progress 3] @ step4 @ [Set_progress 4] @ step5,
                fs5)))"

section \<open>Notions used to state the properties\<close>

text \<open>\<open>p\<close> lies strictly below the directory \<open>dir\<close>, or is \<open>dir\<close> or below it.\<close>

definition strictly_inside :: "string \<Rightarrow> string \<Rightarrow> bool" where
  "strictly_inside dir p = strict_prefix (resolve dir) (resolve p)"

definition inside_or_equal :: "string \<Rightarrow> string \<Rightarrow> bool" where
  "inside_or_equal dir p = prefix (resolve dir) (resolve p)"

text \<open>The path an action creates, writes or changes, if it does.\<close>

fun written :: "action \<Rightarrow> string option" where
  "written (Mkdir_all p ok) = Some p"
| "written (Create_file p ok) = Some p"
| "written (Copy_data p ok) = Some p"
| "written (Chmod_0755 p ok) = Some p"
| "written (Copy_file src dst ok) = Some dst"
| "written (Write_file p ok) = Some p"
| "written _ = None"

text \<open>The progress values among the events, in order.\<close>

fun progress_of :: "event \<Rightarrow> nat option" where
  "progress_of (Update n) = Some n"
| "progress_of _ = None"

definition updates :: "event list \<Rightarrow> nat list" where
  "updates es = List.map_filter progress_of es"

text \<open>The classifier as the specification words it: the three rules, the second with the
  configured application slug among the substrings.\<close>

definition spec_isExecutable :: "string \<Rightarrow> string \<Rightarrow> string list \<Rightarrow> bool" where
  "spec_isExecutable slug path patterns =
     (ToLower (Ext path) \<in> {''.sh'', ''.bin'', ''.x86'', ''.x86_64'', []}
      \<or> (\<exists>w \<in> {''run'', ''start'', ''game'', slug}. Contains (ToLower (Base path)) w)
      \<or> (\<exists>p \<in> set patterns. Match p (Base path)))"

text \<open>A configuration, an environment in which every call succeeds, and an empty install
  record, used for concrete runs.\<close>

definition example_cfg :: Config where
  "example_cfg =
     \<lparr>Config.InstallPath = ''/home/u/Celeste'', IconPath = ''icon.png'',
      BannerPath = ''banner.png'', GameAssets = [''game.zip''], DLLPath = [],
      ExecPath = ''Celeste'', ExecDirs = [],
      DesktopEntry = \<lparr>Name = ''My Game'', Exec = ''Celeste'', Icon = [], Categories = ''Game'',
                       Type = ''Application'', Terminal = False, Comment = []\<rparr>,
      MinRequiredSpaceGB = 2\<rparr>"

definition example_info :: InstallInfo where
  "example_info =
     \<lparr>GameName = [], InstallInfo.InstallPath = [], InstallDate = 0, DesktopFile = [],
      MenuFile = [], InstallerPath = [], InstallerDir = [], UninstallerPath = []\<rparr>"

definition all_ok :: entry_outcome where
  "all_ok = \<lparr>dir_MkdirAll_ok = True, parent_MkdirAll_ok = True, Create_ok = True,
             Open_ok = True, Copy_ok = True\<rparr>"

definition example_save_env :: save_env where
  "example_save_env =
     \<lparr>logs_MkdirAll_ok = True, Now = 1700000000000000000, Executable = ''/opt/setup/installer'',
      WriteFile_ok = True\<rparr>"

definition example_archive :: "zip_File list" where
  "example_archive =
     [\<lparr>f_Name = ''data/'', f_IsDir = True\<rparr>,
      \<lparr>f_Name = ''data/level.bin'', f_IsDir = False\<rparr>,
      \<lparr>f_Name = ''../../etc/passwd'', f_IsDir = False\<rparr>]"

definition example_env :: install_env where
  "example_env =
     \<lparr>zip_OpenReader = (\<lambda>p. if p = ''game.zip'' then Some example_archive else None),
      Stat = (\<lambda>p. Stat_ok),
      Statfs = (\<lambda>p. Some (1000000, 4096)),
      root_MkdirAll_ok = True,
      entry_os = (\<lambda>k. all_ok),
      Chmod_ok = (\<lambda>p. True),
      Walk = (\<lambda>p. [(''/home/u/Celeste/data'', Walk_dir),
                   (''/home/u/Celeste/data/level.bin'', Walk_file)]),
      copyFile_ok = True,
      Args0 = ''/opt/setup/installer'',
      HOME = ''/home/u'',
      shortcut_checked = True,
      appDir_MkdirAll_ok = True,
      menu_WriteFile_ok = True,
      desktop_WriteFile_ok = True,
      save = example_save_env\<rparr>"

text \<open>An element of a cleaned rooted path: not empty, not \<open>.\<close> or \<open>..\<close>, without a
  separator.\<close>

definition normal_elem :: "string \<Rightarrow> bool" where
  "normal_elem c = (c \<noteq> [] \<and> c \<noteq> ''.'' \<and> c \<noteq> ''..'' \<and> sep \<notin> set c)"

text \<open>The trace of \<open>uninstallGame\<close> read by steps: the progress marks, the commands
  run, and the trace cut at its progress marks.\<close>

fun is_progress :: "u_action \<Rightarrow> bool" where
  "is_progress (Set_progress n) = True"
| "is_progress _ = False"

fun is_run :: "u_action \<Rightarrow> bool" where
  "is_run (Run_command c args) = True"
| "is_run _ = False"

fun phases :: "u_action list \<Rightarrow> u_action list list" where
  "phases [] = [[]]"
| "phases (a # as) =
     (if is_progress a then [] # phases as
      else (case phases as of [] \<Rightarrow> [[a]] | p # ps \<Rightarrow> (a # p) # ps))"

text \<open>A step that removes one file is taken when the path is not empty and \<open>os.Stat\<close>
  finds it; it consists of the removal and, when the removal fails, of a line in the log.
  The cache refresh consists of two commands.\<close>

definition attempted :: "uninstall_env \<Rightarrow> tree \<Rightarrow> string \<Rightarrow> bool" where
  "attempted env fs p = (p \<noteq> [] \<and> os_Stat_ok env fs p)"

definition removal :: "string \<Rightarrow> bool \<Rightarrow> u_action list" where
  "removal p ok = (if ok then [Remove_file p True] else [Remove_file p False, Log_failure p])"

definition refresh :: "string \<Rightarrow> u_action list" where
  "refresh home =
     [Run_command ''gtk-update-icon-cache''
        [''-f'', ''-t'', Join [home, ''.local'', ''share'', ''icons'']],
      Run_command ''update-desktop-database'' [Join [home, ''.local'', ''share'', ''applications'']]]"

text \<open>
  A record as the uninstaller loads it, for an application installed to
  \<open>/home/u/Celeste\<close> with its uninstaller and its manifest in that directory, and the
  file system after the installation.  In the first environment the menu entry cannot be
  removed and the removal of the install directory fails at the file \<open>data/locked\<close>, after
  everything else below the directory has been removed; in the second every removal
  succeeds.  In the third the uninstaller runs from \<open>/opt/tools\<close>, where a manifest of
  the same name lies.
\<close>

definition example_record :: InstallInfoU where
  "example_record =
     \<lparr>u_GameName = ''Celeste'', u_InstallPath = ''/home/u/Celeste'',
      u_InstallDate = 1700000000000000000,
      u_DesktopFile = ''/home/u/Desktop/celeste.desktop'',
      u_MenuFile = ''/home/u/.local/share/applications/celeste.desktop'',
      u_InstallerPath = ''/opt/setup/installer'', u_InstallerDir = ''/opt/setup''\<rparr>"

definition example_tree :: tree where
  "example_tree q =
     (q \<in> set [[''home'', ''u'', ''Celeste''],
                [''home'', ''u'', ''Celeste'', ''uninstaller''],
                [''home'', ''u'', ''Celeste'', ''data''],
                [''home'', ''u'', ''Celeste'', ''data'', ''locked''],
                [''home'', ''u'', ''Celeste'', ''logs''],
                [''home'', ''u'', ''Celeste'', ''logs'', ''celeste-install.json''],
                [''home'', ''u'', ''Desktop'', ''celeste.desktop''],
                [''home'', ''u'', ''.local'', ''share'', ''applications'', ''celeste.desktop''],
                [''opt'', ''tools'', ''logs'', ''celeste-install.json'']])"

definition stuck_uninstall_env :: uninstall_env where
  "stuck_uninstall_env =
     \<lparr>u_Args0 = ''/home/u/Celeste/uninstaller'', u_HOME = ''/home/u'', u_Getwd = ''/home/u'',
      Stat_denied = (\<lambda>p. False), menu_Remove_ok = False, desktop_Remove_ok = True,
      dir_RemoveAll_ok = False,
      dir_RemoveAll_gone =
        (\<lambda>q. q \<notin> set [[''home'', ''u'', ''Celeste''],
                        [''home'', ''u'', ''Celeste'', ''data''],
                        [''home'', ''u'', ''Celeste'', ''data'', ''locked'']]),
      manifest_Remove_ok = True\<rparr>"

definition good_uninstall_env :: uninstall_env where
  "good_uninstall_env = stuck_uninstall_env\<lparr>dir_RemoveAll_ok := True\<rparr>"

definition outside_uninstall_env :: uninstall_env where
  "outside_uninstall_env = stuck_uninstall_env\<lparr>u_Args0 := ''/opt/tools/uninstaller''\<rparr>"

text \<open>\<open>chooseInstallPath\<close>: the directory picked in the dialog, if any, sets the install
  path.  The install button is enabled by this function only.\<close>

definition chooseInstallPath :: "string \<Rightarrow> Config \<Rightarrow> Config" where
  "chooseInstallPath dialog cfg =
     (if dialog \<noteq> [] then cfg\<lparr>Config.InstallPath := Join [dialog, ''Celeste'']\<rparr> else cfg)"

text \<open>The first archive of a list that cannot be opened, and the number of members of the
  archives of a configuration (an archive listed twice counts twice).\<close>

definition first_unopened :: "install_env \<Rightarrow> string list \<Rightarrow> string option" where
  "first_unopened env assets = find (\<lambda>a. zip_OpenReader env a = None) assets"

definition total_entries :: "install_env \<Rightarrow> string list \<Rightarrow> nat" where
  "total_entries env assets =
     sum_list (map (\<lambda>a. case zip_OpenReader env a of None \<Rightarrow> 0 | Some r \<Rightarrow> length r) assets)"

text \<open>An action that is neither a progress value nor the completion signal.\<close>

definition quiet :: "action \<Rightarrow> bool" where
  "quiet a = (case event_of a of Some (Update n) \<Rightarrow> False | Some Completed \<Rightarrow> False | _ \<Rightarrow> True)"


definition dir_fails_env :: install_env where
  "dir_fails_env =
     example_env
       \<lparr>zip_OpenReader :=
          (\<lambda>p. if p = ''game.zip'' then Some [\<lparr>f_Name = ''data/'', f_IsDir = True\<rparr>] else None),
        entry_os := (\<lambda>k. all_ok\<lparr>dir_MkdirAll_ok := False\<rparr>)\<rparr>"

definition low_space_env :: install_env where
  "low_space_env = example_env\<lparr>Statfs := (\<lambda>p. Some (1000, 4096))\<rparr>"

text \<open>The cause for which the checks of \<open>startInstallation\<close> stop a run, read off the
  environment: the first archive that cannot be opened, no member in any archive, a free
  space that cannot be measured or is below the minimum, an install directory that cannot
  be created; \<open>None\<close> when none of these holds.\<close>

definition fatal_cause :: "install_env \<Rightarrow> Config \<Rightarrow> fatal option" where
  "fatal_cause env cfg =
     (case first_unopened env (GameAssets cfg) of
        Some asset \<Rightarrow> Some (ArchiveOpenError asset)
      | None \<Rightarrow>
          if total_entries env (GameAssets cfg) = 0 then Some ArchivesEmpty
          else
            (case checkDiskSpace env cfg of
               None \<Rightarrow> Some DiskSpaceCheckError
             | Some free \<Rightarrow>
                 if free < MinRequiredSpaceGB cfg
                 then Some (NotEnoughSpace free (MinRequiredSpaceGB cfg))
                 else if \<not> root_MkdirAll_ok env then Some InstallRootError
                 else None))"










text \<open>The lines of the log and the message boxes of \<open>createShortcut\<close> in a trace, and the
  warnings among the events.\<close>

fun log_of :: "action \<Rightarrow> logged option" where
  "log_of (Log_error l) = Some l"
| "log_of _ = None"

definition log_lines :: "action list \<Rightarrow> logged list" where
  "log_lines acts = List.map_filter log_of acts"

definition boxes :: "action list \<Rightarrow> nat" where
  "boxes acts = length (filter (\<lambda>a. a = Warning_box) acts)"

fun warning_of :: "event \<Rightarrow> warning option" where
  "warning_of (Warn w) = Some w"
| "warning_of _ = None"

definition warnings :: "event list \<Rightarrow> warning list" where
  "warnings es = List.map_filter warning_of es"





section \<open>Properties\<close>

subsection \<open>Scanning a pattern\<close>

text \<open>The counters of \<open>scan_ranges\<close> and \<open>scan_pattern\<close> never run out where \<open>Match\<close>
  starts them: every larger start value gives the same result.\<close>

lemma getEsc_shorter: "getEsc p = Some (c, r) \<Longrightarrow> length r < length p"
  by (cases p) (auto split: if_splits list.splits)

lemma scan_range_shorter: "scan_range p = Some (r, rest) \<Longrightarrow> length rest < length p"
  by (auto simp: scan_range_def split: option.splits list.splits if_splits
      dest!: getEsc_shorter)

lemma scan_ranges_fuel:
  "length p < n \<Longrightarrow> length p < m \<Longrightarrow> scan_ranges n rs p = scan_ranges m rs p"
proof (induction n arbitrary: m rs p)
  case 0
  then show ?case by simp
next
  case (Suc n)
  from Suc.prems obtain m' where m: "m = Suc m'" by (cases m) auto
  show ?case
  proof (cases p)
    case Nil
    then show ?thesis by (simp add: m)
  next
    case (Cons c cs)
    show ?thesis
    proof (cases "scan_range (c # cs)")
      case None
      then show ?thesis by (simp add: m Cons)
    next
      case (Some a)
      obtain r rest where a: "a = (r, rest)" by (cases a)
      have "length rest < length p" using Some a Cons scan_range_shorter by blast
      then have "scan_ranges n (r # rs) rest = scan_ranges m' (r # rs) rest"
        by (intro Suc.IH) (use Suc.prems m in simp_all)
      then show ?thesis using Some a by (simp add: m Cons)
    qed
  qed
qed

lemma scan_ranges_shorter:
  "scan_ranges n rs p = Some (cl, rest) \<Longrightarrow> length rest < length p"
proof (induction n arbitrary: rs p)
  case 0
  then show ?case by simp
next
  case (Suc n)
  show ?case
  proof (cases p)
    case Nil
    with Suc.prems show ?thesis by simp
  next
    case (Cons c cs)
    show ?thesis
    proof (cases "c = CHR '']'' \<and> rs \<noteq> []")
      case True
      with Suc.prems Cons show ?thesis by auto
    next
      case False
      show ?thesis
      proof (cases "scan_range (c # cs)")
        case None
        with Suc.prems Cons False show ?thesis by simp
      next
        case (Some a)
        obtain r q where a: "a = (r, q)" by (cases a)
        have q: "length q < length p" using Some a Cons scan_range_shorter by blast
        from Suc.prems Some a Cons False
        have "scan_ranges n (r # rs) q = Some (cl, rest)" by simp
        then have "length rest < length q" by (rule Suc.IH)
        with q show ?thesis by simp
      qed
    qed
  qed
qed

lemma scan_class_shorter: "scan_class p = Some (t, rest) \<Longrightarrow> length rest \<le> length p"
  by (auto simp: scan_class_def simp del: scan_ranges.simps split: list.splits if_splits
      dest!: scan_ranges_shorter)

lemma scan_pattern_fuel:
  "length p \<le> n \<Longrightarrow> length p \<le> m \<Longrightarrow> scan_pattern n p = scan_pattern m p"
proof (induction n arbitrary: m p)
  case 0
  then show ?case by simp
next
  case (Suc n)
  show ?case
  proof (cases p)
    case Nil
    then show ?thesis by simp
  next
    case (Cons c cs)
    from Suc.prems Cons obtain m' where m: "m = Suc m'" by (cases m) auto
    have ih: "\<And>r. length r \<le> length cs \<Longrightarrow> scan_pattern n r = scan_pattern m' r"
      by (rule Suc.IH) (use Suc.prems Cons m in simp_all)
    have tail: "scan_pattern n cs = scan_pattern m' cs" by (rule ih) simp
    have esc: "\<And>e r. cs = e # r \<Longrightarrow> scan_pattern n r = scan_pattern m' r"
      by (rule ih) simp
    have cls: "\<And>t r. scan_class cs = Some (t, r) \<Longrightarrow> scan_pattern n r = scan_pattern m' r"
      by (rule ih) (rule scan_class_shorter)
    show ?thesis
      unfolding Cons m
      by (simp add: tail esc cls split: list.splits option.splits)
  qed
qed

lemma Match_fuel:
  "length pattern \<le> n \<Longrightarrow>
   Match pattern name =
     (case scan_pattern n pattern of None \<Rightarrow> False | Some ts \<Rightarrow> match_terms ts name)"
  unfolding Match_def using scan_pattern_fuel [of pattern "length pattern" n] by simp

subsection \<open>The permission classifier\<close>

lemma match_patterns_iff:
  "match_patterns patterns name flag \<longleftrightarrow> flag \<or> (\<exists>p \<in> set patterns. Match p name)"
  by (induction patterns) auto

text \<open>
  Claim C5, as the code has it.  For every path and every list of patterns the classifier
  marks the file executable exactly when one of three rules holds: its lower-cased
  extension is \<open>.sh\<close>, \<open>.bin\<close>, \<open>.x86\<close>, \<open>.x86_64\<close> or empty; its lower-cased base name
  contains \<open>run\<close>, \<open>start\<close>, \<open>game\<close> or the fixed word \<open>celeste\<close>; its base name matches
  one of the patterns.  With the installer's own patterns \<open>readme.txt\<close> is not marked.
\<close>

theorem classifier_rules:
  "isExecutable path patterns = spec_isExecutable ''celeste'' path patterns
   \<and> \<not> isExecutable ''readme.txt'' exec_patterns"
proof
  show "isExecutable path patterns = spec_isExecutable ''celeste'' path patterns"
    unfolding isExecutable_def spec_isExecutable_def Let_def match_patterns_iff
    by auto
  show "\<not> isExecutable ''readme.txt'' exec_patterns"
    by (simp add: isExecutable_def exec_patterns_def Ext_def Base_def ToLower_def
        lower_char_def HasPrefix_def Match_def scan_class_def)
qed

text \<open>A file that only the third rule reaches: marked with a pattern that matches its
  name, not marked without.\<close>

theorem classifier_rules_witness:
  "spec_isExecutable ''celeste'' ''/home/u/Celeste/tools/x.tool'' [''*.sh'', ''*.tool'']
   \<and> isExecutable ''/home/u/Celeste/tools/x.tool'' [''*.sh'', ''*.tool'']
   \<and> \<not> isExecutable ''/home/u/Celeste/tools/x.tool'' [''*.sh'']"
  using classifier_rules [of "''/home/u/Celeste/tools/x.tool''" "[''*.sh'', ''*.tool'']"]
        classifier_rules [of "''/home/u/Celeste/tools/x.tool''" "[''*.sh'']"]
  by (simp add: spec_isExecutable_def Ext_def Base_def ToLower_def
        lower_char_def HasPrefix_def Match_def scan_class_def)

text \<open>The claim as worded has the configured application slug in the second rule.  For an
  application named \<open>Foo\<close> the file \<open>foo.txt\<close> would then be marked; the classifier does
  not mark it.\<close>

theorem classifier_slug_counterexample:
  "\<not> (isExecutable ''foo.txt'' [] \<longleftrightarrow> spec_isExecutable (appSlug ''Foo'') ''foo.txt'' [])"
  by (simp add: isExecutable_def spec_isExecutable_def appSlug_def ReplaceAll_def Ext_def
      Base_def ToLower_def lower_char_def HasPrefix_def)

subsection \<open>The name of the manifest file\<close>

text \<open>
  Claim C3 at the application name \<open>My Game\<close>.  The installer writes the manifest of the
  example configuration to \<open>logs/my-game-install.json\<close> under the install directory; the
  uninstaller staged in that directory recomputes \<open>logs/my game-install.json\<close> from the
  same name, because it lower-cases the name and does not replace the space.
\<close>

theorem manifest_name_mismatch:
  "save_infoFilePath example_cfg = ''/home/u/Celeste/logs/my-game-install.json''
   \<and> uninstall_infoFilePath ''/home/u/Celeste/uninstaller''
        (zero_InstallInfoU\<lparr>u_GameName := Name (DesktopEntry example_cfg)\<rparr>)
       = ''/home/u/Celeste/logs/my game-install.json''"
  by (simp add: save_infoFilePath_def save_logsDir_def example_cfg_def appSlug_def ToLower_def
      lower_char_def ReplaceAll_def Join_def Clean_def IsAbs_def slashed_def
      uninstall_infoFilePath_def Dir_def)

subsection \<open>The order of uninstallation\<close>

lemma phases_plain: "\<forall>a \<in> set m. \<not> is_progress a \<Longrightarrow> phases m = [m]"
  by (induction m) auto

lemma phases_mark:
  "\<forall>a \<in> set m. \<not> is_progress a \<Longrightarrow> phases (m @ Set_progress n # rest) = m # phases rest"
  by (induction m) auto

lemma removal_plain: "\<forall>a \<in> set (removal p ok). \<not> is_progress a \<and> \<not> is_run a"
  by (simp add: removal_def)

lemma refresh_plain: "\<forall>a \<in> set (refresh home). \<not> is_progress a"
  by (simp add: refresh_def)

lemma filter_none: "\<forall>a \<in> set xs. \<not> P a \<Longrightarrow> filter P xs = []"
  by (simp add: filter_empty_conv)

text \<open>
  Claim C8, as the code has it.  The trace of \<open>uninstallGame\<close>, cut at its progress marks,
  has after the initial mark the step for the menu entry and the step for the desktop
  entry, each taken when its path is not empty and \<open>os.Stat\<close> finds it, each made of the
  removal and, when the removal fails, of a line in the log; whether the first fails
  changes nothing for the second but the file system it finds.  When the removal of the
  install directory is then tried and fails, the error is returned, the failed removal is
  the last action, progress stops at 2, no command is run, and the file system is left
  without what the failed removal took away below the install directory: a manifest that
  does not lie below the install directory is as it was.  Otherwise no error is returned,
  and the steps that follow are the removal of the install directory (when tried), the two
  cache commands, and the removal of the manifest, when \<open>os.Stat\<close> still finds it;
  progress goes from 0 to 4.
\<close>

theorem uninstall_order:
  "case uninstallGame env info fs of
     (err, trace, fs') \<Rightarrow>
       (let menu = u_MenuFile info; desktop = u_DesktopFile info; dir = u_InstallPath info;
            manifest = uninstall_infoFilePath (u_Args0 env) info;
            m = (if attempted env fs menu then removal menu (menu_Remove_ok env) else []);
            fs1 = (if attempted env fs menu \<and> menu_Remove_ok env
                   then os_Remove env menu fs else fs);
            d = (if attempted env fs1 desktop then removal desktop (desktop_Remove_ok env)
                 else []);
            fs2 = (if attempted env fs1 desktop \<and> desktop_Remove_ok env
                   then os_Remove env desktop fs1 else fs1)
        in if attempted env fs2 dir \<and> \<not> dir_RemoveAll_ok env then
             err = Some RemoveDirError
             \<and> phases trace = [[], m, d, [Remove_all dir False]]
             \<and> filter is_progress trace = [Set_progress 0, Set_progress 1, Set_progress 2]
             \<and> filter is_run trace = []
             \<and> (\<forall>q. fs' q =
                      (fs2 q \<and> \<not> (prefix (place env dir) q \<and> dir_RemoveAll_gone env q)))
             \<and> (\<not> prefix (place env dir) (place env manifest) \<longrightarrow>
                   fs' (place env manifest) = fs2 (place env manifest))
           else
             (let r = (if attempted env fs2 dir then [Remove_all dir True] else []);
                  fs3 = (if attempted env fs2 dir then os_RemoveAll env dir fs2 else fs2);
                  c = (if os_Stat_ok env fs3 manifest
                       then removal manifest (manifest_Remove_ok env) else [])
              in err = None
                 \<and> phases trace = [[], m, d, r, refresh (u_HOME env), c]
                 \<and> filter is_progress trace =
                     [Set_progress 0, Set_progress 1, Set_progress 2, Set_progress 3,
                      Set_progress 4]
                 \<and> fs' = (if os_Stat_ok env fs3 manifest \<and> manifest_Remove_ok env
                          then os_Remove env manifest fs3 else fs3)))"
proof -
  define menu where "menu = u_MenuFile info"
  define desktop where "desktop = u_DesktopFile info"
  define dir where "dir = u_InstallPath info"
  define manifest where "manifest = uninstall_infoFilePath (u_Args0 env) info"
  define m where "m = (if attempted env fs menu then removal menu (menu_Remove_ok env) else [])"
  define fs1 where "fs1 = (if attempted env fs menu \<and> menu_Remove_ok env
                   then os_Remove env menu fs else fs)"
  define d where "d = (if attempted env fs1 desktop then removal desktop (desktop_Remove_ok env)
                 else [])"
  define fs2 where "fs2 = (if attempted env fs1 desktop \<and> desktop_Remove_ok env
                   then os_Remove env desktop fs1 else fs1)"
  define r where "r = (if attempted env fs2 dir then [Remove_all dir True] else [])"
  define fs3 where "fs3 = (if attempted env fs2 dir then os_RemoveAll env dir fs2 else fs2)"
  define c where "c = (if os_Stat_ok env fs3 manifest
                       then removal manifest (manifest_Remove_ok env) else [])"
  define fs5 where "fs5 = (if os_Stat_ok env fs3 manifest \<and> manifest_Remove_ok env
                          then os_Remove env manifest fs3 else fs3)"
  have plain: "\<forall>a \<in> set m. \<not> is_progress a" "\<forall>a \<in> set d. \<not> is_progress a"
    "\<forall>a \<in> set r. \<not> is_progress a" "\<forall>a \<in> set c. \<not> is_progress a"
    "\<forall>a \<in> set (refresh (u_HOME env)). \<not> is_progress a"
    and norun: "\<forall>a \<in> set m. \<not> is_run a" "\<forall>a \<in> set d. \<not> is_run a"
    by (auto simp: m_def d_def r_def c_def removal_def refresh_def)
  have s1: "(if u_MenuFile info \<noteq> [] \<and> os_Stat_ok env fs (u_MenuFile info) then
               (if \<not> menu_Remove_ok env
                then ([Remove_file (u_MenuFile info) False, Log_failure (u_MenuFile info)], fs)
                else ([Remove_file (u_MenuFile info) True], os_Remove env (u_MenuFile info) fs))
             else ([], fs)) = (m, fs1)"
    by (simp add: m_def fs1_def menu_def attempted_def removal_def)
  have s2: "(if u_DesktopFile info \<noteq> [] \<and> os_Stat_ok env fs1 (u_DesktopFile info) then
               (if \<not> desktop_Remove_ok env
                then ([Remove_file (u_DesktopFile info) False, Log_failure (u_DesktopFile info)],
                      fs1)
                else ([Remove_file (u_DesktopFile info) True],
                      os_Remove env (u_DesktopFile info) fs1))
             else ([], fs1)) = (d, fs2)"
    by (simp add: d_def fs2_def desktop_def attempted_def removal_def)
  have s3: "(if u_InstallPath info \<noteq> [] \<and> os_Stat_ok env fs2 (u_InstallPath info)
                   then ([Remove_all (u_InstallPath info) True],
                         os_RemoveAll env (u_InstallPath info) fs2)
                   else ([], fs2)) = (r, fs3)"
    by (simp add: r_def fs3_def dir_def attempted_def)
  have s5: "(if os_Stat_ok env fs3 (uninstall_infoFilePath (u_Args0 env) info) then
                     (if \<not> manifest_Remove_ok env
                      then ([Remove_file (uninstall_infoFilePath (u_Args0 env) info) False,
                             Log_failure (uninstall_infoFilePath (u_Args0 env) info)], fs3)
                      else ([Remove_file (uninstall_infoFilePath (u_Args0 env) info) True],
                            os_Remove env (uninstall_infoFilePath (u_Args0 env) info) fs3))
                   else ([], fs3)) = (c, fs5)"
    by (simp add: c_def fs5_def manifest_def removal_def)
  have att: "(u_InstallPath info \<noteq> [] \<and> os_Stat_ok env fs2 (u_InstallPath info))
      = attempted env fs2 dir"
    by (simp add: attempted_def dir_def)
  show ?thesis
  proof (cases "attempted env fs2 dir \<and> \<not> dir_RemoveAll_ok env")
    case True
    have run: "uninstallGame env info fs =
        (Some RemoveDirError,
         Set_progress 0 # m @ Set_progress 1 # d @ Set_progress 2 # [Remove_all dir False],
         os_RemoveAll_failing env dir fs2)"
      unfolding uninstallGame_def Let_def s1 prod.case s2
      using True by (simp add: dir_def attempted_def)
    have ph: "phases (Set_progress 0 # m @ Set_progress 1 # d @ Set_progress 2 #
                [Remove_all dir False]) = [[], m, d, [Remove_all dir False]]"
      using plain by (simp add: phases_mark)
    have marks: "filter is_progress (Set_progress 0 # m @ Set_progress 1 # d @ Set_progress 2 #
                [Remove_all dir False]) = [Set_progress 0, Set_progress 1, Set_progress 2]"
      using plain by (simp add: filter_none)
    have runs: "filter is_run (Set_progress 0 # m @ Set_progress 1 # d @ Set_progress 2 #
                [Remove_all dir False]) = []"
      using norun by (simp add: filter_none)
    show ?thesis
      unfolding run prod.case Let_def
      unfolding menu_def [symmetric] desktop_def [symmetric] dir_def [symmetric]
        manifest_def [symmetric] fs1_def [symmetric] m_def [symmetric]
      unfolding d_def [symmetric] fs2_def [symmetric]
      using True ph marks runs by (simp add: os_RemoveAll_failing_def)
  next
    case False
    have run: "uninstallGame env info fs =
        (None,
         Set_progress 0 # m @ Set_progress 1 # d @ Set_progress 2 # r @ Set_progress 3 #
           refresh (u_HOME env) @ Set_progress 4 # c,
         fs5)"
      unfolding uninstallGame_def Let_def s1 prod.case s2 s3 s5
      using False by (simp add: dir_def attempted_def refresh_def)
    have ph: "phases (Set_progress 0 # m @ Set_progress 1 # d @ Set_progress 2 # r @
                Set_progress 3 # refresh (u_HOME env) @ Set_progress 4 # c)
              = [[], m, d, r, refresh (u_HOME env), c]"
      using plain by (simp add: phases_mark phases_plain)
    have marks: "filter is_progress (Set_progress 0 # m @ Set_progress 1 # d @ Set_progress 2 #
                r @ Set_progress 3 # refresh (u_HOME env) @ Set_progress 4 # c)
              = [Set_progress 0, Set_progress 1, Set_progress 2, Set_progress 3, Set_progress 4]"
      using plain by (simp add: filter_none)
    show ?thesis
      unfolding run prod.case Let_def
      unfolding menu_def [symmetric] desktop_def [symmetric] dir_def [symmetric]
        manifest_def [symmetric] fs1_def [symmetric] m_def [symmetric]
      unfolding d_def [symmetric] fs2_def [symmetric]
      unfolding r_def [symmetric] fs3_def [symmetric]
      unfolding c_def [symmetric] fs5_def [symmetric]
      using False ph marks by simp
  qed
qed


text \<open>The example record in three environments.\<close>

lemma example_places:
  "place env ''/home/u/.local/share/applications/celeste.desktop''
     = [''home'', ''u'', ''.local'', ''share'', ''applications'', ''celeste.desktop'']"
  "place env ''/home/u/Desktop/celeste.desktop'' = [''home'', ''u'', ''Desktop'', ''celeste.desktop'']"
  "place env ''/home/u/Celeste'' = [''home'', ''u'', ''Celeste'']"
  "place env ''/home/u/Celeste/logs/celeste-install.json''
     = [''home'', ''u'', ''Celeste'', ''logs'', ''celeste-install.json'']"
  "place env ''/opt/tools/logs/celeste-install.json''
     = [''opt'', ''tools'', ''logs'', ''celeste-install.json'']"
  by (simp_all add: place_def resolve_def IsAbs_def resolve_step_def)

lemma example_manifests:
  "uninstall_infoFilePath ''/opt/tools/uninstaller'' example_record
     = ''/opt/tools/logs/celeste-install.json''"
  "uninstall_infoFilePath ''/home/u/Celeste/uninstaller'' example_record
     = ''/home/u/Celeste/logs/celeste-install.json''"
  by (simp_all add: uninstall_infoFilePath_def example_record_def ToLower_def lower_char_def
      Join_def Clean_def IsAbs_def slashed_def Dir_def)

lemma example_record_fields:
  "u_MenuFile example_record = ''/home/u/.local/share/applications/celeste.desktop''"
  "u_DesktopFile example_record = ''/home/u/Desktop/celeste.desktop''"
  "u_InstallPath example_record = ''/home/u/Celeste''"
  by (simp_all add: example_record_def)

lemma uninstall_env_facts:
  "u_Args0 stuck_uninstall_env = ''/home/u/Celeste/uninstaller''"
  "u_Args0 good_uninstall_env = ''/home/u/Celeste/uninstaller''"
  "u_Args0 outside_uninstall_env = ''/opt/tools/uninstaller''"
  "u_HOME good_uninstall_env = ''/home/u''"
  "Stat_denied stuck_uninstall_env p = False"
  "Stat_denied good_uninstall_env p = False"
  "Stat_denied outside_uninstall_env p = False"
  "menu_Remove_ok stuck_uninstall_env = False"
  "menu_Remove_ok good_uninstall_env = False"
  "menu_Remove_ok outside_uninstall_env = False"
  "desktop_Remove_ok stuck_uninstall_env = True"
  "desktop_Remove_ok good_uninstall_env = True"
  "desktop_Remove_ok outside_uninstall_env = True"
  "dir_RemoveAll_ok stuck_uninstall_env = False"
  "dir_RemoveAll_ok good_uninstall_env = True"
  "dir_RemoveAll_ok outside_uninstall_env = False"
  "manifest_Remove_ok good_uninstall_env = True"
  "dir_RemoveAll_gone stuck_uninstall_env [''home'', ''u'', ''Celeste'', ''logs'', ''celeste-install.json'']"
  by (simp_all add: stuck_uninstall_env_def good_uninstall_env_def outside_uninstall_env_def)

lemmas uninstall_eval =
  Let_def attempted_def os_Stat_ok_def os_Remove_def os_RemoveAll_def removal_def
  example_tree_def example_places example_manifests example_record_fields uninstall_env_facts

text \<open>
  An uninstaller that runs from \<open>/opt/tools\<close> and cannot remove the install directory:
  the menu entry's failure is logged, the desktop entry is removed, the error is returned,
  and the manifest under \<open>/opt/tools/logs\<close> is still there.  And the staged
  uninstaller when every removal succeeds: all five steps in order, the last one empty
  because the manifest went with the install directory.
\<close>

theorem uninstall_order_witness:
  "(case uninstallGame outside_uninstall_env example_record example_tree of
      (err, trace, fs') \<Rightarrow>
        err = Some RemoveDirError
        \<and> phases trace =
            [[],
             [Remove_file ''/home/u/.local/share/applications/celeste.desktop'' False,
              Log_failure ''/home/u/.local/share/applications/celeste.desktop''],
             [Remove_file ''/home/u/Desktop/celeste.desktop'' True],
             [Remove_all ''/home/u/Celeste'' False]]
        \<and> filter is_run trace = []
        \<and> \<not> prefix (place outside_uninstall_env ''/home/u/Celeste'')
                     (place outside_uninstall_env ''/opt/tools/logs/celeste-install.json'')
        \<and> fs' [''opt'', ''tools'', ''logs'', ''celeste-install.json''])
   \<and> (case uninstallGame good_uninstall_env example_record example_tree of
        (err, trace, fs') \<Rightarrow>
          err = None
          \<and> phases trace =
              [[],
               [Remove_file ''/home/u/.local/share/applications/celeste.desktop'' False,
                Log_failure ''/home/u/.local/share/applications/celeste.desktop''],
               [Remove_file ''/home/u/Desktop/celeste.desktop'' True],
               [Remove_all ''/home/u/Celeste'' True],
               refresh ''/home/u'',
               []]
          \<and> \<not> fs' [''home'', ''u'', ''Celeste''])"
proof -
  obtain e1 t1 f1 where r1:
    "uninstallGame outside_uninstall_env example_record example_tree = (e1, t1, f1)"
    by (cases "uninstallGame outside_uninstall_env example_record example_tree")
  obtain e2 t2 f2 where r2:
    "uninstallGame good_uninstall_env example_record example_tree = (e2, t2, f2)"
    by (cases "uninstallGame good_uninstall_env example_record example_tree")
  have a: "e1 = Some RemoveDirError
        \<and> phases t1 =
            [[],
             [Remove_file ''/home/u/.local/share/applications/celeste.desktop'' False,
              Log_failure ''/home/u/.local/share/applications/celeste.desktop''],
             [Remove_file ''/home/u/Desktop/celeste.desktop'' True],
             [Remove_all ''/home/u/Celeste'' False]]
        \<and> filter is_run t1 = []
        \<and> f1 [''opt'', ''tools'', ''logs'', ''celeste-install.json'']"
    using uninstall_order [where env = outside_uninstall_env and info = example_record and fs = example_tree]
    unfolding r1 prod.case by (simp add: uninstall_eval)
  have b: "e2 = None
          \<and> phases t2 =
              [[],
               [Remove_file ''/home/u/.local/share/applications/celeste.desktop'' False,
                Log_failure ''/home/u/.local/share/applications/celeste.desktop''],
               [Remove_file ''/home/u/Desktop/celeste.desktop'' True],
               [Remove_all ''/home/u/Celeste'' True],
               refresh ''/home/u'',
               []]
          \<and> \<not> f2 [''home'', ''u'', ''Celeste'']"
    using uninstall_order [where env = good_uninstall_env and info = example_record and fs = example_tree]
    unfolding r2 prod.case by (simp add: uninstall_eval)
  show ?thesis
    unfolding r1 r2 prod.case using a b by (simp add: example_places)
qed

text \<open>
  The claim as worded has the manifest not deleted when the removal of the install
  directory fails.  The staged uninstaller of the example has its manifest below the
  install directory, where the installer wrote it; the removal of the directory fails at
  one file after it has removed the others, and the manifest is gone although the error
  is returned and the step that removes the manifest is not reached.
\<close>

theorem manifest_gone_counterexample:
  "case uninstallGame stuck_uninstall_env example_record example_tree of
     (err, trace, fs') \<Rightarrow>
       err = Some RemoveDirError
       \<and> filter is_run trace = []
       \<and> uninstall_infoFilePath (u_Args0 stuck_uninstall_env) example_record
           = ''/home/u/Celeste/logs/celeste-install.json''
       \<and> example_tree (place stuck_uninstall_env ''/home/u/Celeste/logs/celeste-install.json'')
       \<and> \<not> fs' (place stuck_uninstall_env ''/home/u/Celeste/logs/celeste-install.json'')"
  by (simp add: uninstallGame_def os_RemoveAll_failing_def uninstall_eval)

subsection \<open>Paths: splitting, cleaning and resolving\<close>

lemma split_on_ne [simp]: "split_on d xs \<noteq> []"
  by (induction xs) (auto split: list.splits)

lemma split_on_append: "split_on d (xs @ d # ys) = split_on d xs @ split_on d ys"
  by (induction xs) (auto split: list.splits)


lemma split_on_free_append:
  "d \<notin> set c \<Longrightarrow> split_on d (c @ ys) = (c @ hd (split_on d ys)) # tl (split_on d ys)"
  by (induction c) (auto split: list.splits)

lemma split_on_elems: "x \<in> set (split_on d xs) \<Longrightarrow> d \<notin> set x"
  by (induction xs arbitrary: x) (auto split: list.splits if_splits)

lemma slashed_Nil [simp]: "slashed [] = []"
  by (simp add: slashed_def)

lemma slashed_Cons [simp]: "slashed (c # cs) = sep # c @ slashed cs"
  by (simp add: slashed_def)

lemma slashed_append [simp]: "slashed (xs @ ys) = slashed xs @ slashed ys"
  by (simp add: slashed_def)

lemma split_slashed:
  "\<forall>c \<in> set cs. sep \<notin> set c \<Longrightarrow> split_on sep (slashed cs) = [] # cs"
  by (induction cs) (auto simp: split_on_free_append)

lemma clean_elems_append:
  "clean_elems r out (xs @ ys) = clean_elems r (rev (clean_elems r out xs)) ys"
  by (induction xs arbitrary: out) (auto split: list.splits)

lemma clean_elems_normal:
  "\<forall>c \<in> set xs. normal_elem c \<Longrightarrow> clean_elems r out xs = rev out @ xs"
  by (induction xs arbitrary: out) (auto simp: normal_elem_def)

lemma clean_elems_skip:
  "x = [] \<or> x = ''.'' \<Longrightarrow> clean_elems r out (x # xs) = clean_elems r out xs"
  by auto

lemma clean_elems_up_root: "clean_elems True [] (''..'' # xs) = clean_elems True [] xs"
  by simp

lemma clean_elems_up:
  "a \<noteq> ''..'' \<Longrightarrow> clean_elems r (a # as) (''..'' # xs) = clean_elems r as xs"
  by simp

lemma clean_elems_push:
  "x \<noteq> [] \<Longrightarrow> x \<noteq> ''.'' \<Longrightarrow> x \<noteq> ''..'' \<Longrightarrow>
   clean_elems r out (x # xs) = clean_elems r (x # out) xs"
  by simp

lemma clean_elems_rooted_normal:
  "\<forall>c \<in> set out. normal_elem c \<Longrightarrow> \<forall>x \<in> set xs. sep \<notin> set x \<Longrightarrow>
   \<forall>c \<in> set (clean_elems True out xs). normal_elem c"
proof (induction xs arbitrary: out)
  case Nil
  then show ?case by simp
next
  case (Cons x xs)
  have rest: "\<forall>y \<in> set xs. sep \<notin> set y" and x: "sep \<notin> set x"
    using Cons.prems(2) by simp_all
  note ih = Cons.IH [OF _ rest]
  show ?case
  proof (cases "x = [] \<or> x = ''.''")
    case True
    show ?thesis
      unfolding clean_elems_skip [OF True] by (rule ih) (rule Cons.prems(1))
  next
    case False
    then have ne: "x \<noteq> []" "x \<noteq> ''.''" by simp_all
    show ?thesis
    proof (cases "x = ''..''")
      case True
      show ?thesis
      proof (cases out)
        case Nil
        show ?thesis
          unfolding True Nil clean_elems_up_root by (rule ih) simp
      next
        case (Cons a as)
        have a: "a \<noteq> ''..''" and as: "\<forall>c \<in> set as. normal_elem c"
          using \<open>\<forall>c \<in> set out. normal_elem c\<close> unfolding Cons
          by (simp_all add: normal_elem_def)
        show ?thesis
          unfolding True Cons clean_elems_up [OF a] by (rule ih) (rule as)
      qed
    next
      case False
      have all: "\<forall>c \<in> set (x # out). normal_elem c"
        using Cons.prems(1) x ne False by (simp add: normal_elem_def)
      show ?thesis
        unfolding clean_elems_push [OF ne False] by (rule ih) (rule all)
    qed
  qed
qed

lemma resolve_clean:
  "\<forall>c \<in> set out. c \<noteq> ''..'' \<Longrightarrow> rev (foldl resolve_step out xs) = clean_elems True out xs"
  by (induction xs arbitrary: out) (auto simp: resolve_step_def split: list.splits)

lemma resolve_eq: "resolve p = clean_elems True [] (split_on sep p)"
  by (simp add: resolve_def resolve_clean)

lemma resolve_normal: "\<forall>c \<in> set (resolve p). normal_elem c"
  unfolding resolve_eq
  by (rule clean_elems_rooted_normal) (auto dest: split_on_elems)

lemma IsAbs_Cons: "IsAbs p \<longleftrightarrow> (\<exists>q. p = sep # q)"
  by (cases p) (auto simp: IsAbs_def)

lemma Clean_abs:
  "IsAbs p \<Longrightarrow> Clean p = (if resolve p = [] then [sep] else slashed (resolve p))"
  by (simp add: Clean_def resolve_eq Let_def)

lemma resolve_slashed:
  "\<forall>c \<in> set cs. normal_elem c \<Longrightarrow> resolve (slashed cs) = cs"
proof -
  assume n: "\<forall>c \<in> set cs. normal_elem c"
  then have "split_on sep (slashed cs) = [] # cs"
    by (intro split_slashed) (auto simp: normal_elem_def)
  then show ?thesis using n by (simp add: resolve_eq clean_elems_normal)
qed

lemma resolve_Clean: "IsAbs p \<Longrightarrow> resolve (Clean p) = resolve p"
  using resolve_normal [of p]
  by (auto simp: Clean_abs resolve_slashed) (simp add: resolve_eq)

lemma Join2_abs: "IsAbs a \<Longrightarrow> Join [a, b] = Clean (a @ sep # b)"
  by (auto simp: Join_def IsAbs_Cons)

lemma IsAbs_append: "IsAbs a \<Longrightarrow> IsAbs (a @ b)"
  by (auto simp: IsAbs_Cons)

subsection \<open>Path containment during extraction\<close>

lemma HasPrefix_iff: "HasPrefix s p \<longleftrightarrow> prefix p s"
  unfolding HasPrefix_def
  by (metis append_eq_conv_conj prefix_def)

lemma prefix_elem:
  "sep \<notin> set s \<Longrightarrow> sep \<notin> set t \<Longrightarrow> z = [] \<or> hd z = sep \<Longrightarrow>
   prefix (s @ sep # y) (t @ z) \<Longrightarrow> s = t \<and> prefix (sep # y) z"
proof (induction s arbitrary: t)
  case Nil
  then show ?case by (cases t) auto
next
  case (Cons a s)
  show ?case
  proof (cases t)
    case Nil
    with Cons.prems show ?thesis by (cases z) auto
  next
    case (Cons c t')
    with Cons.prems Cons.IH [of t'] show ?thesis by auto
  qed
qed

lemma slashed_start: "slashed cs = [] \<or> hd (slashed cs) = sep"
  by (cases cs) auto

lemma prefix_slashed:
  "\<forall>c \<in> set S. sep \<notin> set c \<Longrightarrow> \<forall>c \<in> set T. sep \<notin> set c \<Longrightarrow>
   prefix (slashed S @ [sep]) (slashed T) \<Longrightarrow> strict_prefix S T"
proof (induction S arbitrary: T)
  case Nil
  then show ?case by (cases T) auto
next
  case (Cons s S)
  show ?case
  proof (cases T)
    case Nil
    with Cons.prems show ?thesis by simp
  next
    case T: (Cons t T')
    obtain y where y: "slashed S @ [sep] = sep # y"
      by (cases S) auto
    from Cons.prems(3) have "prefix (s @ sep # y) (t @ slashed T')"
      unfolding T by (simp add: y)
    with prefix_elem [of s t "slashed T'" y] Cons.prems(1,2) slashed_start [of T']
    have "s = t" and "prefix (sep # y) (slashed T')"
      unfolding T by auto
    with Cons.IH [of T'] Cons.prems(1,2) y show ?thesis
      unfolding T by simp
  qed
qed

lemma normal_sep: "\<forall>c \<in> set cs. normal_elem c \<Longrightarrow> \<forall>c \<in> set cs. sep \<notin> set c"
  by (simp add: normal_elem_def)

text \<open>An accepted entry lies strictly below the install directory.\<close>

lemma accepted_inside:
  assumes abs: "IsAbs d" and acc: "HasPrefix (Join [d, n]) (Clean d @ [sep])"
  shows "strictly_inside d (Join [d, n])"
proof -
  let ?p = "d @ sep # n"
  let ?S = "resolve d" and ?T = "resolve ?p"
  have absp: "IsAbs ?p" using abs by (rule IsAbs_append)
  have j: "Join [d, n] = Clean ?p" using abs by (rule Join2_abs)
  have nS: "\<forall>c \<in> set ?S. sep \<notin> set c" and nT: "\<forall>c \<in> set ?T. sep \<notin> set c"
    using resolve_normal normal_sep by blast+
  have pre: "prefix (Clean d @ [sep]) (Clean ?p)"
    using acc unfolding j HasPrefix_iff .
  have T_ne: "?T \<noteq> []"
  proof
    assume "?T = []"
    with pre absp abs have "prefix (Clean d @ [sep]) [sep]"
      by (simp add: Clean_abs)
    then show False using abs
      by (cases "resolve d") (auto simp: Clean_abs)
  qed
  have "prefix (slashed ?S @ [sep]) (slashed ?T)"
  proof (cases "?S = []")
    case True
    obtain t T' where T: "?T = t # T'" using T_ne by (cases ?T) auto
    have "normal_elem t" using resolve_normal [of ?p] unfolding T by simp
    then obtain a t' where "t = a # t'" "a \<noteq> sep"
      by (cases t) (auto simp: normal_elem_def)
    with pre True T abs absp show ?thesis
      by (simp add: Clean_abs)
  next
    case False
    with pre T_ne abs absp show ?thesis by (simp add: Clean_abs)
  qed
  then have "strict_prefix ?S ?T" using nS nT prefix_slashed by blast
  then show ?thesis
    unfolding strictly_inside_def j using absp by (simp add: resolve_Clean)
qed

lemma resolve_Join_abs: "IsAbs d \<Longrightarrow> resolve (Join [d, n]) = resolve (d @ sep # n)"
  by (simp add: Join2_abs resolve_Clean IsAbs_append)

lemma Join_abs_slashed:
  "IsAbs d \<Longrightarrow> resolve (Join [d, n]) \<noteq> [] \<Longrightarrow> Join [d, n] = slashed (resolve (Join [d, n]))"
  by (simp add: resolve_Join_abs) (simp add: Join2_abs Clean_abs IsAbs_append)

lemma dir_prefix_slashed:
  "sep \<notin> set l \<Longrightarrow>
   rev (dropWhile (\<lambda>c. c \<noteq> sep) (rev (slashed (B @ [l])))) = slashed B @ [sep]"
  by (auto simp: dropWhile_append3)

lemma resolve_Dir_slashed:
  assumes "\<forall>c \<in> set (B @ [l]). normal_elem c"
  shows "resolve (Dir (slashed (B @ [l]))) = B"
proof -
  have l: "sep \<notin> set l" and B: "\<forall>c \<in> set B. normal_elem c"
    using assms by (simp_all add: normal_elem_def)
  have abs: "IsAbs (slashed B @ [sep])"
    by (cases B) (auto simp: IsAbs_def)
  have "split_on sep (slashed B @ [sep]) = split_on sep (slashed B) @ [[]]"
    using split_on_append [of sep "slashed B" "[]"] by simp
  also have "\<dots> = ([] # B) @ [[]]"
    using B by (simp add: split_slashed normal_sep)
  finally have "resolve (slashed B @ [sep]) = B"
    using B by (simp add: resolve_eq clean_elems_append clean_elems_normal)
  then show ?thesis
    unfolding Dir_def dir_prefix_slashed [OF l] using abs by (simp add: resolve_Clean)
qed

lemma accepted_Dir_inside:
  assumes abs: "IsAbs d" and acc: "HasPrefix (Join [d, n]) (Clean d @ [sep])"
  shows "inside_or_equal d (Dir (Join [d, n]))"
proof -
  let ?T = "resolve (Join [d, n])"
  from accepted_inside [OF abs acc] have sp: "strict_prefix (resolve d) ?T"
    by (simp add: strictly_inside_def)
  then have "?T \<noteq> []" by auto
  then obtain B l where T: "?T = B @ [l]" by (metis rev_exhaust)
  have n: "\<forall>c \<in> set (B @ [l]). normal_elem c"
    using resolve_normal [of "Join [d, n]"] unfolding T .
  have "Join [d, n] = slashed (B @ [l])"
    using Join_abs_slashed [OF abs \<open>?T \<noteq> []\<close>] unfolding T .
  then have "resolve (Dir (Join [d, n])) = B"
    using resolve_Dir_slashed [OF n] by simp
  moreover have "prefix (resolve d) B"
    using sp unfolding T by (auto simp: strict_prefix_def prefix_snoc)
  ultimately show ?thesis by (simp add: inside_or_equal_def)
qed

lemma strictly_inside_weaken: "strictly_inside d p \<Longrightarrow> inside_or_equal d p"
  by (simp add: strictly_inside_def inside_or_equal_def strict_prefix_def)

lemma extract_file_written:
  assumes abs: "IsAbs d" and a: "a \<in> set (snd (extract_file d oc f n))"
    and w: "written a = Some p"
  shows "inside_or_equal d p \<and> ((\<exists>ok. a = Create_file p ok \<or> a = Copy_data p ok) \<longrightarrow> strictly_inside d p)"
proof (cases "HasPrefix (Join [d, f_Name f]) (Clean d @ [sep])")
  case False
  with a w show ?thesis by (simp add: extract_file_def)
next
  case True
  note in1 = accepted_inside [OF abs True]
  note in2 = accepted_Dir_inside [OF abs True]
  note in3 = strictly_inside_weaken [OF in1]
  from a w True in1 in2 in3 show ?thesis
    by (auto simp: extract_file_def Let_def split: if_splits)
qed

lemma extract_files_written:
  assumes abs: "IsAbs d"
  shows "a \<in> set (snd (extract_files d ocs fs k n)) \<Longrightarrow> written a = Some p \<Longrightarrow>
    inside_or_equal d p \<and> ((\<exists>ok. a = Create_file p ok \<or> a = Copy_data p ok) \<longrightarrow> strictly_inside d p)"
proof (induction fs arbitrary: k n)
  case Nil
  then show ?case by simp
next
  case (Cons f fs)
  obtain n1 t1 where e1: "extract_file d (ocs k) f n = (n1, t1)" by (cases "extract_file d (ocs k) f n")
  obtain n2 t2 where e2: "extract_files d ocs fs (Suc k) n1 = (n2, t2)" by (cases "extract_files d ocs fs (Suc k) n1")
  from Cons.prems(1) have "a \<in> set t1 \<or> a \<in> set t2" by (simp add: e1 e2)
  then show ?case
  proof
    assume "a \<in> set t1"
    then show ?thesis using extract_file_written [OF abs _ Cons.prems(2), of oc f n for oc f n] e1
      by (metis snd_conv)
  next
    assume "a \<in> set t2"
    then show ?thesis using Cons.IH [of "Suc k" n1] Cons.prems(2) e2 by simp
  qed
qed

lemma extract_assets_written:
  assumes abs: "IsAbs d"
  shows "a \<in> set (snd (snd (extract_assets d ocs zf assets k n))) \<Longrightarrow> written a = Some p \<Longrightarrow>
    inside_or_equal d p \<and> ((\<exists>ok. a = Create_file p ok \<or> a = Copy_data p ok) \<longrightarrow> strictly_inside d p)"
proof (induction assets arbitrary: k n)
  case Nil
  then show ?case by simp
next
  case (Cons asset assets)
  show ?case
  proof (cases "zf asset")
    case None
    with Cons.prems show ?thesis by simp
  next
    case (Some r)
    obtain n1 t1 where e1: "extract_files d ocs r k n = (n1, t1)" by (cases "extract_files d ocs r k n")
    obtain b n2 t2 where e2: "extract_assets d ocs zf assets (k + length r) n1 = (b, n2, t2)"
      by (cases "extract_assets d ocs zf assets (k + length r) n1")
    from Cons.prems(1) have "a \<in> set t1 \<or> a \<in> set t2" by (simp add: Some e1 e2)
    then show ?thesis
    proof
      assume "a \<in> set t1"
      then show ?thesis using extract_files_written [OF abs _ Cons.prems(2), of ocs r k n] e1 by simp
    next
      assume "a \<in> set t2"
      then show ?thesis using Cons.IH [of "k + length r" n1] Cons.prems(2) e2 by simp
    qed
  qed
qed

text \<open>
  Claim C1.  The install path is absolute: it is what \<open>chooseInstallPath\<close> sets from the
  directory picked in the dialog, and the install button is not enabled before.  Then
  every entry whose joined and cleaned path does not resolve strictly below the install
  directory is rejected: the worker sends the path-traversal warning and goes on to the next
  entry, with the count unchanged and no file-system call.  Every path that the
  extraction loops create or write resolves to the install directory or below it, and
  every file they create or fill lies strictly below it.
\<close>

theorem extraction_contained:
  assumes "IsAbs installPath"
  shows "(\<not> strictly_inside installPath (Join [installPath, f_Name f]) \<longrightarrow>
            extract_file installPath oc f n = (n, [Send_error PathTraversal]))
       \<and> (\<forall>a \<in> set (snd (snd (extract_assets installPath ocs zipFiles assets k m))). \<forall>p.
            written a = Some p \<longrightarrow> inside_or_equal installPath p)
       \<and> (\<forall>a \<in> set (snd (snd (extract_assets installPath ocs zipFiles assets k m))). \<forall>p ok.
            a = Create_file p ok \<or> a = Copy_data p ok \<longrightarrow> strictly_inside installPath p)"
proof (intro conjI impI ballI allI)
  assume "\<not> strictly_inside installPath (Join [installPath, f_Name f])"
  then have "\<not> HasPrefix (Join [installPath, f_Name f]) (Clean installPath @ [sep])"
    using accepted_inside [OF assms] by blast
  then show "extract_file installPath oc f n = (n, [Send_error PathTraversal])"
    by (simp add: extract_file_def)
next
  fix a p
  assume "a \<in> set (snd (snd (extract_assets installPath ocs zipFiles assets k m)))"
    and "written a = Some p"
  then show "inside_or_equal installPath p"
    using extract_assets_written [OF assms] by blast
next
  fix a p ok
  assume a: "a \<in> set (snd (snd (extract_assets installPath ocs zipFiles assets k m)))"
    and "a = Create_file p ok \<or> a = Copy_data p ok"
  moreover from this have "written a = Some p" by auto
  ultimately show "strictly_inside installPath p"
    using extract_assets_written [OF assms a] by blast
qed

text \<open>The entry \<open>../../etc/passwd\<close> under the install path chosen from \<open>/home/u\<close>.\<close>

theorem extraction_contained_witness:
  "IsAbs (Config.InstallPath (chooseInstallPath ''/home/u'' example_cfg))
   \<and> \<not> strictly_inside ''/home/u/Celeste'' (Join [''/home/u/Celeste'', ''../../etc/passwd''])
   \<and> extract_file (Config.InstallPath (chooseInstallPath ''/home/u'' example_cfg)) all_ok
        \<lparr>f_Name = ''../../etc/passwd'', f_IsDir = False\<rparr> 2 = (2, [Send_error PathTraversal])"
  using extraction_contained [of "''/home/u/Celeste''" "\<lparr>f_Name = ''../../etc/passwd'', f_IsDir = False\<rparr>" all_ok 2]
  by (simp add: chooseInstallPath_def example_cfg_def IsAbs_def Join_def Clean_def slashed_def
      strictly_inside_def resolve_def resolve_step_def)

subsection \<open>Where the manifest is written\<close>
















subsection \<open>Saving and loading an install record\<close>





subsection \<open>Opening the archives\<close>

lemma openAssets_unopened:
  "first_unopened env assets = Some a \<Longrightarrow> openAssets env assets zf t = Inl a"
  by (induction assets arbitrary: zf t) (auto simp: first_unopened_def split: option.splits)

lemma openAssets_opened:
  "first_unopened env assets = None \<Longrightarrow>
   openAssets env assets zf t =
     Inr (\<lambda>a. if a \<in> set assets then zip_OpenReader env a else zf a,
          t + total_entries env assets)"
proof (induction assets arbitrary: zf t)
  case Nil
  then show ?case by (simp add: total_entries_def)
next
  case (Cons x xs)
  from Cons.prems obtain r where r: "zip_OpenReader env x = Some r"
    and rest: "first_unopened env xs = None"
    by (auto simp: first_unopened_def split: if_splits)
  have fe: "(\<lambda>a. if a \<in> set xs then zip_OpenReader env a else (zf(x \<mapsto> r)) a)
        = (\<lambda>a. if a \<in> set (x # xs) then zip_OpenReader env a else zf a)"
    using r by auto
  have "openAssets env (x # xs) zf t = openAssets env xs (zf(x \<mapsto> r)) (t + length r)"
    using r by simp
  also have "\<dots> = Inr (\<lambda>a. if a \<in> set xs then zip_OpenReader env a else (zf(x \<mapsto> r)) a,
                       t + length r + total_entries env xs)"
    by (rule Cons.IH [OF rest])
  also have "\<dots> = Inr (\<lambda>a. if a \<in> set (x # xs) then zip_OpenReader env a else zf a,
                       t + total_entries env (x # xs))"
    unfolding fe by (simp add: total_entries_def r)
  finally show ?case .
qed

lemma first_unopened_None:
  "first_unopened env assets = None \<longleftrightarrow> (\<forall>a \<in> set assets. zip_OpenReader env a \<noteq> None)"
  by (auto simp: first_unopened_def find_None_iff)

subsection \<open>Events\<close>

lemma map_filter_app:
  "List.map_filter f (xs @ ys) = List.map_filter f xs @ List.map_filter f ys"
  by (simp add: map_filter_def)

lemma sends_append [simp]: "sends (xs @ ys) = sends xs @ sends ys"
  by (simp add: sends_def map_filter_app)

lemma sends_Nil [simp]: "sends [] = []"
  by (simp add: sends_def)

lemma sends_Cons:
  "sends (a # as) = (case event_of a of None \<Rightarrow> sends as | Some e \<Rightarrow> e # sends as)"
  by (simp add: sends_def split: option.splits)

lemma updates_append [simp]: "updates (xs @ ys) = updates xs @ updates ys"
  by (simp add: updates_def map_filter_app)

lemma updates_Nil [simp]: "updates [] = []"
  by (simp add: updates_def)

lemma updates_Cons:
  "updates (e # es) = (case progress_of e of None \<Rightarrow> updates es | Some n \<Rightarrow> n # updates es)"
  by (simp add: updates_def split: option.splits)

lemma quiet_sends:
  "\<forall>a \<in> set as. quiet a \<Longrightarrow> updates (sends as) = [] \<and> Completed \<notin> set (sends as)"
proof (induction as)
  case Nil
  then show ?case by simp
next
  case (Cons a as)
  then show ?case
    by (cases "event_of a")
       (auto simp: sends_Cons updates_Cons quiet_def split: event.splits)
qed

subsection \<open>The extraction loops\<close>

lemma extract_file_progress:
  "extract_file d oc f n = (n', t) \<Longrightarrow>
   Completed \<notin> set (sends t) \<and>
   ((n' = n \<and> updates (sends t) = []) \<or> (n' = Suc n \<and> updates (sends t) = [Suc n]))"
  by (auto simp: extract_file_def Let_def sends_Cons updates_Cons split: if_splits)

lemma extract_files_progress:
  "extract_files d ocs fs k n = (n', t) \<Longrightarrow>
   Completed \<notin> set (sends t) \<and> n \<le> n' \<and> n' \<le> n + length fs \<and>
   updates (sends t) = [Suc n ..< Suc n']"
proof (induction fs arbitrary: k n n' t)
  case Nil
  then show ?case by simp
next
  case (Cons f fs)
  obtain n1 t1 where e1: "extract_file d (ocs k) f n = (n1, t1)"
    by (cases "extract_file d (ocs k) f n")
  obtain n2 t2 where e2: "extract_files d ocs fs (Suc k) n1 = (n2, t2)"
    by (cases "extract_files d ocs fs (Suc k) n1")
  from Cons.prems have eq: "n' = n2" "t = t1 @ t2" by (simp_all add: e1 e2)
  note p1 = extract_file_progress [OF e1]
  note p2 = Cons.IH [OF e2]
  from p1 show ?case
  proof (elim conjE disjE)
    assume "n1 = n" "updates (sends t1) = []" "Completed \<notin> set (sends t1)"
    with p2 eq show ?thesis by simp
  next
    assume a: "n1 = Suc n" "updates (sends t1) = [Suc n]" "Completed \<notin> set (sends t1)"
    with p2 have "Suc n \<le> n2" by simp
    then have "[Suc n ..< Suc n2] = Suc n # [Suc (Suc n) ..< Suc n2]"
      by (simp add: upt_conv_Cons)
    with a p2 eq show ?thesis by simp
  qed
qed

lemma extract_assets_progress:
  "extract_assets d ocs zf assets k n = (panicked, n', t) \<Longrightarrow>
   \<forall>a \<in> set assets. zf a = zip_OpenReader env a \<Longrightarrow>
   \<forall>a \<in> set assets. zip_OpenReader env a \<noteq> None \<Longrightarrow>
   \<not> panicked \<and> Completed \<notin> set (sends t) \<and> n \<le> n' \<and>
   n' \<le> n + total_entries env assets \<and> updates (sends t) = [Suc n ..< Suc n']"
proof (induction assets arbitrary: k n panicked n' t)
  case Nil
  then show ?case by (simp add: total_entries_def)
next
  case (Cons x xs)
  from Cons.prems(2,3) obtain r where r: "zf x = Some r" "zip_OpenReader env x = Some r"
    by (cases "zip_OpenReader env x") auto
  obtain n1 t1 where e1: "extract_files d ocs r k n = (n1, t1)"
    by (cases "extract_files d ocs r k n")
  obtain b n2 t2 where e2: "extract_assets d ocs zf xs (k + length r) n1 = (b, n2, t2)"
    by (cases "extract_assets d ocs zf xs (k + length r) n1")
  from Cons.prems(1) have eq: "panicked = b" "n' = n2" "t = t1 @ t2"
    by (simp_all add: r e1 e2)
  note p1 = extract_files_progress [OF e1]
  have "\<forall>a \<in> set xs. zf a = zip_OpenReader env a"
    and "\<forall>a \<in> set xs. zip_OpenReader env a \<noteq> None"
    using Cons.prems(2,3) by simp_all
  note p2 = Cons.IH [OF e2 this]
  have tot: "total_entries env (x # xs) = length r + total_entries env xs"
    by (simp add: total_entries_def r)
  have "[Suc n ..< Suc n2] = [Suc n ..< Suc n1] @ [Suc n1 ..< Suc n2]"
    using p1 p2 by (metis Suc_le_mono upt_add_eq_append le_iff_add)
  with p1 p2 eq tot show ?case by simp
qed

subsection \<open>Finalization and the listener\<close>

lemma makeFilesExecutable_quiet: "\<forall>a \<in> set (makeFilesExecutable env dir ps). quiet a"
  by (auto simp: makeFilesExecutable_def quiet_def split: if_splits walked.splits)

lemma saveInstallInfo_quiet:
  "saveInstallInfo senv cfg i fs = (err, i', fs', t) \<Longrightarrow> \<forall>a \<in> set t. quiet a"
  by (auto simp: saveInstallInfo_def quiet_def Let_def split: if_splits)

lemma createShortcut_quiet: "\<forall>a \<in> set (snd (createShortcut env cfg i)). quiet a"
  by (auto simp: createShortcut_def quiet_def Let_def split: if_splits)

lemma finalize_events:
  "finalize env cfg i fs = (t, i', fs') \<Longrightarrow>
   t \<noteq> [] \<and> last t = Send_done \<and> (\<forall>a \<in> set (butlast t). quiet a)"
proof -
  assume f: "finalize env cfg i fs = (t, i', fs')"
  obtain i1 d4 where c: "(if shortcut_checked env then createShortcut env cfg i else (i, [])) = (i1, d4)"
    by (cases "if shortcut_checked env then createShortcut env cfg i else (i, [])")
  have q4: "\<forall>a \<in> set d4. quiet a"
    using c createShortcut_quiet [of env cfg i] by (auto split: if_splits)
  obtain err i2 fs2 sv where s: "saveInstallInfo (save env) cfg i1 fs = (err, i2, fs2, sv)"
    by (cases "saveInstallInfo (save env) cfg i1 fs")
  define d1 where "d1 =
    (if ExecPath cfg \<noteq> [] then
       (let execFullPath = Join [Config.InstallPath cfg, ExecPath cfg] in
        if \<not> Chmod_ok env execFullPath
        then [Chmod_0755 execFullPath False, Log_error ChmodMainLog, Send_error ChmodFailed]
        else [Chmod_0755 execFullPath True])
     else [])"
  define d2 where "d2 =
    (if ExecDirs cfg \<noteq> [] then
       concat (map (\<lambda>dir. makeFilesExecutable env (Join [Config.InstallPath cfg, dir]) exec_patterns)
                   (ExecDirs cfg))
     else makeFilesExecutable env (Config.InstallPath cfg) exec_patterns)"
  define d3 where "d3 =
    (if \<not> copyFile_ok env
     then [Copy_file (Join [Dir (Args0 env), ''uninstaller''])
             (Join [Config.InstallPath cfg, ''uninstaller'']) False,
           Log_error UninstallerCopyLog, Send_error UninstallerCopyFailed]
     else [Copy_file (Join [Dir (Args0 env), ''uninstaller''])
             (Join [Config.InstallPath cfg, ''uninstaller'']) True])"
  define d5 where "d5 = (case err of Some e \<Rightarrow> sv @ [Log_error (SaveLog e)] | None \<Rightarrow> sv)"
  have t: "t = (d1 @ d2 @ d3 @ d4 @ d5) @ [Send_done]"
    using f by (simp add: finalize_def Let_def c s d1_def d2_def d3_def d5_def)
  have q1: "\<forall>a \<in> set d1. quiet a"
    by (auto simp: d1_def Let_def quiet_def)
  have q2: "\<forall>a \<in> set d2. quiet a"
    using makeFilesExecutable_quiet [of env] by (auto simp: d2_def)
  have q3: "\<forall>a \<in> set d3. quiet a"
    by (auto simp: d3_def quiet_def)
  have q5: "\<forall>a \<in> set d5. quiet a"
    using saveInstallInfo_quiet [OF s] by (auto simp: d5_def quiet_def split: option.splits)
  have "butlast t = d1 @ d2 @ d3 @ d4 @ d5" unfolding t by (rule butlast_snoc)
  moreover have "last t = Send_done" unfolding t by (rule last_snoc)
  moreover have "t \<noteq> []" unfolding t by simp
  ultimately show ?thesis using q1 q2 q3 q4 q5 by auto
qed

lemma listener_waiting:
  "Completed \<notin> set es \<Longrightarrow> finished (listener tot es u) = finished u"
  by (induction tot es u rule: listener.induct) auto

lemma listener_completed:
  "Completed \<notin> set es \<Longrightarrow>
   finished (listener tot (es @ Completed # es') u) \<and>
   bar_value (listener tot (es @ Completed # es') u) = tot"
  by (induction tot es u rule: listener.induct) auto

subsection \<open>A whole run\<close>

lemma worker_events:
  assumes zf: "\<forall>a \<in> set (GameAssets cfg). zf a = zip_OpenReader env a"
    and op: "\<forall>a \<in> set (GameAssets cfg). zip_OpenReader env a \<noteq> None"
  shows "\<exists>k q. k \<le> total_entries env (GameAssets cfg)
           \<and> sends (fst (worker env cfg zf i fs)) = q @ [Completed]
           \<and> Completed \<notin> set q \<and> updates q = [1 ..< Suc k]"
proof -
  obtain b n t1 where e: "extract_assets (Config.InstallPath cfg) (entry_os env) zf (GameAssets cfg) 0 0 = (b, n, t1)"
    by (cases "extract_assets (Config.InstallPath cfg) (entry_os env) zf (GameAssets cfg) 0 0")
  from extract_assets_progress [OF e zf op]
  have b: "\<not> b" and c1: "Completed \<notin> set (sends t1)"
    and n: "n \<le> total_entries env (GameAssets cfg)" and u1: "updates (sends t1) = [1 ..< Suc n]"
    by simp_all
  obtain t2 i' fs' where f: "finalize env cfg i fs = (t2, i', fs')"
    by (cases "finalize env cfg i fs")
  from finalize_events [OF f] have t2: "t2 = butlast t2 @ [Send_done]"
    and q: "\<forall>a \<in> set (butlast t2). quiet a"
    by (metis append_butlast_last_id, simp)
  have w: "fst (worker env cfg zf i fs) = t1 @ t2"
    by (simp add: worker_def e b f)
  have "sends t2 = sends (butlast t2) @ [Completed]"
    by (subst t2) (simp add: sends_Cons)
  then have "sends (t1 @ t2) = (sends t1 @ sends (butlast t2)) @ [Completed]"
    by simp
  moreover have "Completed \<notin> set (sends t1 @ sends (butlast t2))"
    using c1 quiet_sends [OF q] by simp
  moreover have "updates (sends t1 @ sends (butlast t2)) = [1 ..< Suc n]"
    using u1 quiet_sends [OF q] by simp
  ultimately show ?thesis using n unfolding w by blast
qed

lemma run_failed:
  "fatal_cause env cfg = Some why \<Longrightarrow>
   startInstallation env cfg i fs =
     failed why (if why = InstallRootError then [Mkdir_all (Config.InstallPath cfg) False] else [])
       (if first_unopened env (GameAssets cfg) = None then total_entries env (GameAssets cfg) else 0)
       i fs"
  by (auto simp: fatal_cause_def startInstallation_def openAssets_unopened openAssets_opened
      split: option.splits if_splits)

lemma run_passed:
  assumes "fatal_cause env cfg = None"
  shows "\<exists>acts k q u.
           r_trace (startInstallation env cfg i fs) =
             [Set_button_enabled False, Mkdir_all (Config.InstallPath cfg) True] @ acts
           \<and> r_state (startInstallation env cfg i fs) = Done
           \<and> r_totalFiles (startInstallation env cfg i fs) = total_entries env (GameAssets cfg)
           \<and> k \<le> total_entries env (GameAssets cfg)
           \<and> sends acts = q @ [Completed] \<and> Completed \<notin> set q \<and> updates q = [1 ..< Suc k]
           \<and> r_ui (startInstallation env cfg i fs) = Some u \<and> finished u
           \<and> bar_value u = total_entries env (GameAssets cfg)"
proof -
  let ?A = "GameAssets cfg"
  let ?zf = "\<lambda>a. if a \<in> set ?A then zip_OpenReader env a else None"
  let ?init = "\<lparr>bar_value = 0, bar_percent = 0, shown = [], finished = False\<rparr>"
  from assms have un: "first_unopened env ?A = None"
    and tot: "total_entries env ?A \<noteq> 0"
    by (auto simp: fatal_cause_def split: option.splits if_splits)
  from assms un tot obtain free where free: "checkDiskSpace env cfg = Some free"
    "\<not> free < MinRequiredSpaceGB cfg" "root_MkdirAll_ok env"
    by (auto simp: fatal_cause_def split: option.splits if_splits)
  have oa: "openAssets env ?A Map.empty 0 = Inr (?zf, total_entries env ?A)"
    using openAssets_opened [OF un, of Map.empty 0] by simp
  have zf: "\<forall>a \<in> set ?A. ?zf a = zip_OpenReader env a" by simp
  have op: "\<forall>a \<in> set ?A. zip_OpenReader env a \<noteq> None"
    using un by (simp add: first_unopened_None)
  obtain acts i' fs' where w: "worker env cfg ?zf i fs = (acts, i', fs')"
    by (cases "worker env cfg ?zf i fs")
  from worker_events [OF zf op, of i fs] w obtain k q where k: "k \<le> total_entries env ?A"
    and q: "sends acts = q @ [Completed]" "Completed \<notin> set q" "updates q = [1 ..< Suc k]"
    by auto
  let ?u = "listener (total_entries env ?A) (sends acts) ?init"
  have fin: "finished ?u" "bar_value ?u = total_entries env ?A"
    unfolding q(1) using listener_completed [OF q(2), of "total_entries env ?A" "[]" ?init]
    by simp_all
  have run: "startInstallation env cfg i fs =
      \<lparr>r_state = Done,
       r_trace = [Set_button_enabled False, Mkdir_all (Config.InstallPath cfg) True] @ acts,
       r_totalFiles = total_entries env ?A, r_ui = Some ?u, r_info = i', r_files = fs'\<rparr>"
    using tot free fin by (simp add: startInstallation_def oa w)
  show ?thesis
    unfolding run using k q fin by auto
qed



lemma run_state:
  "r_state (startInstallation env cfg i fs) =
     (case fatal_cause env cfg of Some why \<Rightarrow> Failed why | None \<Rightarrow> Done)"
proof (cases "fatal_cause env cfg")
  case None
  with run_passed [OF None, of i fs] show ?thesis by auto
next
  case (Some why)
  with run_failed [OF Some, of i fs] show ?thesis by (simp add: failed_def)
qed

subsection \<open>What stops a run, and what a run reports\<close>

lemma warnings_append [simp]: "warnings (xs @ ys) = warnings xs @ warnings ys"
  by (simp add: warnings_def map_filter_app)

lemma warnings_Nil [simp]: "warnings [] = []"
  by (simp add: warnings_def)


lemma log_lines_append [simp]: "log_lines (xs @ ys) = log_lines xs @ log_lines ys"
  by (simp add: log_lines_def map_filter_app)

lemma log_lines_Nil [simp]: "log_lines [] = []"
  by (simp add: log_lines_def)


lemma boxes_append [simp]: "boxes (xs @ ys) = boxes xs + boxes ys"
  by (simp add: boxes_def)

lemma boxes_Nil [simp]: "boxes [] = 0"
  by (simp add: boxes_def)


















lemma example_total: "total_entries example_env (GameAssets example_cfg) = 3"
  by (simp add: total_entries_def example_env_def example_cfg_def example_archive_def)

lemma example_space: "checkDiskSpace example_env example_cfg = Some (4096000000 / 1073741824)"
  by (simp add: checkDiskSpace_def example_env_def example_cfg_def float64_of_nat_def)




lemmas path_eval = Join_def Clean_def IsAbs_def slashed_def Dir_def HasPrefix_def














subsection \<open>Free space is checked before anything is created\<close>

lemma low_space_cause:
  assumes "checkDiskSpace env cfg = Some free" and "free < MinRequiredSpaceGB cfg"
  shows "\<exists>why. fatal_cause env cfg = Some why \<and> why \<noteq> InstallRootError"
  using assms by (auto simp: fatal_cause_def split: option.splits)

lemma passed_space:
  assumes "fatal_cause env cfg = None \<or> fatal_cause env cfg = Some InstallRootError"
  shows "\<exists>free. checkDiskSpace env cfg = Some free \<and> \<not> free < MinRequiredSpaceGB cfg"
  using assms by (auto simp: fatal_cause_def split: option.splits if_splits)

text \<open>
  Claim C6.  Whenever the measured free space is below the configured minimum the run ends
  in \<open>Failed\<close>, no action of the run creates or writes anything, the worker and the
  listener are never started and the files are as before.  In any run that creates or
  writes something, the free space was measured and was not below the minimum, and the
  first thing the run does after disabling the button is to create the install directory.
\<close>

theorem low_space_stops_before_root:
  "(\<forall>free. checkDiskSpace env cfg = Some free \<and> free < MinRequiredSpaceGB cfg \<longrightarrow>
      (\<exists>why. r_state (startInstallation env cfg i fs) = Failed why)
      \<and> (\<forall>a \<in> set (r_trace (startInstallation env cfg i fs)). written a = None)
      \<and> r_ui (startInstallation env cfg i fs) = None
      \<and> r_files (startInstallation env cfg i fs) = fs)
   \<and> ((\<exists>a \<in> set (r_trace (startInstallation env cfg i fs)). written a \<noteq> None) \<longrightarrow>
        (\<exists>free. checkDiskSpace env cfg = Some free \<and> \<not> free < MinRequiredSpaceGB cfg)
        \<and> (\<exists>ok rest. r_trace (startInstallation env cfg i fs) =
              Set_button_enabled False # Mkdir_all (Config.InstallPath cfg) ok # rest))"
proof (intro conjI allI impI)
  fix free
  assume "checkDiskSpace env cfg = Some free \<and> free < MinRequiredSpaceGB cfg"
  then obtain why where why: "fatal_cause env cfg = Some why" "why \<noteq> InstallRootError"
    using low_space_cause by blast
  note run = run_failed [OF why(1), of i fs]
  show "\<exists>why. r_state (startInstallation env cfg i fs) = Failed why"
    unfolding run by (simp add: failed_def)
  show "\<forall>a \<in> set (r_trace (startInstallation env cfg i fs)). written a = None"
    unfolding run using why(2) by (simp add: failed_def)
  show "r_ui (startInstallation env cfg i fs) = None"
    unfolding run by (simp add: failed_def)
  show "r_files (startInstallation env cfg i fs) = fs"
    unfolding run by (simp add: failed_def)
next
  assume w: "\<exists>a \<in> set (r_trace (startInstallation env cfg i fs)). written a \<noteq> None"
  have c: "fatal_cause env cfg = None \<or> fatal_cause env cfg = Some InstallRootError"
  proof (cases "fatal_cause env cfg")
    case None
    then show ?thesis by simp
  next
    case (Some why)
    with w run_failed [OF Some, of i fs] show ?thesis
      by (auto simp: failed_def split: if_splits)
  qed
  show "\<exists>free. checkDiskSpace env cfg = Some free \<and> \<not> free < MinRequiredSpaceGB cfg"
    using passed_space [OF c] .
  from c show "\<exists>ok rest. r_trace (startInstallation env cfg i fs) =
      Set_button_enabled False # Mkdir_all (Config.InstallPath cfg) ok # rest"
  proof
    assume "fatal_cause env cfg = None"
    from run_passed [OF this, of i fs] show ?thesis by auto
  next
    assume "fatal_cause env cfg = Some InstallRootError"
    from run_failed [OF this, of i fs]
    have "r_trace (startInstallation env cfg i fs) =
        Set_button_enabled False # Mkdir_all (Config.InstallPath cfg) False #
          [Display_error InstallRootError, Set_button_enabled True]"
      by (simp add: failed_def)
    then show ?thesis by blast
  qed
qed

lemma low_space_facts:
  "checkDiskSpace low_space_env example_cfg = Some (4096000 / 1073741824)"
  by (simp add: low_space_env_def checkDiskSpace_def example_env_def example_cfg_def float64_of_nat_def)

text \<open>A volume with 1000 free blocks of 4096 bytes and a required minimum of 2 GB.\<close>

theorem low_space_stops_before_root_witness:
  "checkDiskSpace low_space_env example_cfg = Some (4096000 / 1073741824)
   \<and> (4096000 / 1073741824 :: real) < MinRequiredSpaceGB example_cfg
   \<and> (\<exists>why. r_state (startInstallation low_space_env example_cfg example_info Map.empty) = Failed why)
   \<and> list_all (\<lambda>a. written a = None)
         (r_trace (startInstallation low_space_env example_cfg example_info Map.empty))
   \<and> r_ui (startInstallation low_space_env example_cfg example_info Map.empty) = None"
proof -
  have "(4096000 / 1073741824 :: real) < MinRequiredSpaceGB example_cfg"
    by (simp add: example_cfg_def)
  with low_space_facts
    low_space_stops_before_root [of low_space_env example_cfg example_info Map.empty]
  show ?thesis unfolding list_all_iff by blast
qed

subsection \<open>Progress and completion\<close>

text \<open>
  Claim C9.  In a run that is not stopped by the checks, the events on the channels are
  progress values and warnings followed by one completion signal, which is the last event
  and the only one of its kind.  The progress values are \<open>1, 2, ..., k\<close> for some \<open>k\<close>
  not above the total number of entries, hence strictly increasing and bounded by it.  The
  listener has then finished and shows the total number of entries.
\<close>

theorem progress_and_completion:
  assumes "\<nexists>why. r_state (startInstallation env cfg i fs) = Failed why"
  shows "\<exists>k q u. k \<le> r_totalFiles (startInstallation env cfg i fs)
           \<and> sends (r_trace (startInstallation env cfg i fs)) = q @ [Completed]
           \<and> Completed \<notin> set q
           \<and> updates q = [1 ..< Suc k]
           \<and> sorted_wrt (<) (updates (sends (r_trace (startInstallation env cfg i fs))))
           \<and> (\<forall>v \<in> set (updates (sends (r_trace (startInstallation env cfg i fs)))).
                 v \<le> r_totalFiles (startInstallation env cfg i fs))
           \<and> r_ui (startInstallation env cfg i fs) = Some u
           \<and> finished u
           \<and> bar_value u = r_totalFiles (startInstallation env cfg i fs)"
proof -
  have "fatal_cause env cfg = None"
  proof (cases "fatal_cause env cfg")
    case None
    then show ?thesis .
  next
    case (Some why)
    with assms run_failed [OF Some, of i fs] show ?thesis by (simp add: failed_def)
  qed
  from run_passed [OF this, of i fs] obtain acts k q u where
    t: "r_trace (startInstallation env cfg i fs) =
          [Set_button_enabled False, Mkdir_all (Config.InstallPath cfg) True] @ acts"
    and tot: "r_totalFiles (startInstallation env cfg i fs) = total_entries env (GameAssets cfg)"
    and k: "k \<le> total_entries env (GameAssets cfg)"
    and q: "sends acts = q @ [Completed]" "Completed \<notin> set q" "updates q = [1 ..< Suc k]"
    and u: "r_ui (startInstallation env cfg i fs) = Some u" "finished u"
      "bar_value u = total_entries env (GameAssets cfg)"
    by blast
  have s: "sends (r_trace (startInstallation env cfg i fs)) = q @ [Completed]"
    unfolding t by (simp add: sends_Cons q(1))
  have up: "updates (sends (r_trace (startInstallation env cfg i fs))) = [1 ..< Suc k]"
    unfolding s by (simp add: updates_Cons q(3))
  have sorted: "sorted_wrt (<) [1 ..< Suc k]"
    by (rule sorted_wrt_upt)
  have bound: "\<forall>v \<in> set [1 ..< Suc k]. v \<le> total_entries env (GameAssets cfg)"
    using k by auto
  show ?thesis
    unfolding up tot
    using s k q u sorted bound by blast
qed

lemma worker_updates:
  assumes zf: "\<forall>a \<in> set (GameAssets cfg). zf a = zip_OpenReader env a"
    and op: "\<forall>a \<in> set (GameAssets cfg). zip_OpenReader env a \<noteq> None"
  shows "updates (sends (fst (worker env cfg zf i fs))) =
         updates (sends (snd (snd (extract_assets (Config.InstallPath cfg) (entry_os env) zf
                                     (GameAssets cfg) 0 0))))"
proof -
  obtain b n t1 where e: "extract_assets (Config.InstallPath cfg) (entry_os env) zf (GameAssets cfg) 0 0 = (b, n, t1)"
    by (cases "extract_assets (Config.InstallPath cfg) (entry_os env) zf (GameAssets cfg) 0 0")
  from extract_assets_progress [OF e zf op] have b: "\<not> b" by simp
  obtain t2 i' fs' where f: "finalize env cfg i fs = (t2, i', fs')"
    by (cases "finalize env cfg i fs")
  from finalize_events [OF f] have t2: "t2 = butlast t2 @ [Send_done]"
    and q: "\<forall>a \<in> set (butlast t2). quiet a"
    by (metis append_butlast_last_id, simp)
  have "updates (sends t2) = updates (sends (butlast t2) @ [Completed])"
    by (subst t2) (simp add: sends_Cons)
  then have "updates (sends t2) = []"
    using quiet_sends [OF q] by (simp add: updates_Cons)
  then show ?thesis
    by (simp add: worker_def e b f)
qed

lemma run_updates:
  assumes "fatal_cause env cfg = None"
  shows "updates (sends (r_trace (startInstallation env cfg i fs))) =
         updates (sends (snd (snd (extract_assets (Config.InstallPath cfg) (entry_os env)
            (\<lambda>a. if a \<in> set (GameAssets cfg) then zip_OpenReader env a else None)
            (GameAssets cfg) 0 0))))"
proof -
  let ?A = "GameAssets cfg"
  let ?zf = "\<lambda>a. if a \<in> set ?A then zip_OpenReader env a else None"
  from assms have un: "first_unopened env ?A = None"
    and tot: "total_entries env ?A \<noteq> 0"
    by (auto simp: fatal_cause_def split: option.splits if_splits)
  from assms un tot obtain free where free: "checkDiskSpace env cfg = Some free"
    "\<not> free < MinRequiredSpaceGB cfg" "root_MkdirAll_ok env"
    by (auto simp: fatal_cause_def split: option.splits if_splits)
  have oa: "openAssets env ?A Map.empty 0 = Inr (?zf, total_entries env ?A)"
    using openAssets_opened [OF un, of Map.empty 0] by simp
  have zf: "\<forall>a \<in> set ?A. ?zf a = zip_OpenReader env a" by simp
  have op: "\<forall>a \<in> set ?A. zip_OpenReader env a \<noteq> None"
    using un by (simp add: first_unopened_None)
  obtain acts i' fs' where w: "worker env cfg ?zf i fs = (acts, i', fs')"
    by (cases "worker env cfg ?zf i fs")
  have "r_trace (startInstallation env cfg i fs) =
      [Set_button_enabled False, Mkdir_all (Config.InstallPath cfg) True] @ acts"
    using tot free by (simp add: startInstallation_def oa w Let_def)
  then show ?thesis
    using worker_updates [OF zf op, of i fs] w by (simp add: sends_Cons)
qed

lemma example_cause: "fatal_cause example_env example_cfg = None"
proof -
  have "first_unopened example_env (GameAssets example_cfg) = None"
    by (simp add: first_unopened_def example_env_def example_cfg_def)
  moreover have "\<not> (4096000000 / 1073741824 :: real) < MinRequiredSpaceGB example_cfg"
    by (simp add: example_cfg_def)
  moreover have "root_MkdirAll_ok example_env" by (simp add: example_env_def)
  ultimately show ?thesis
    by (simp add: fatal_cause_def example_total example_space)
qed

text \<open>The example run: three entries, of which one is rejected.\<close>

theorem progress_and_completion_witness:
  "(\<nexists>why. r_state (startInstallation example_env example_cfg example_info Map.empty) = Failed why)
   \<and> (\<exists>k q u. k \<le> r_totalFiles (startInstallation example_env example_cfg example_info Map.empty)
         \<and> sends (r_trace (startInstallation example_env example_cfg example_info Map.empty))
             = q @ [Completed]
         \<and> Completed \<notin> set q
         \<and> updates q = [1 ..< Suc k]
         \<and> r_ui (startInstallation example_env example_cfg example_info Map.empty) = Some u
         \<and> finished u
         \<and> bar_value u = r_totalFiles (startInstallation example_env example_cfg example_info Map.empty))"
proof -
  have nf: "\<nexists>why. r_state (startInstallation example_env example_cfg example_info Map.empty) = Failed why"
    by (simp add: run_state example_cause)
  from progress_and_completion [OF nf] nf show ?thesis by blast
qed

lemma dir_fails_cause: "fatal_cause dir_fails_env example_cfg = None"
proof -
  have "first_unopened dir_fails_env (GameAssets example_cfg) = None"
    by (simp add: first_unopened_def dir_fails_env_def example_env_def example_cfg_def)
  moreover have "total_entries dir_fails_env (GameAssets example_cfg) = 1"
    by (simp add: total_entries_def dir_fails_env_def example_env_def example_cfg_def)
  moreover have "checkDiskSpace dir_fails_env example_cfg = checkDiskSpace example_env example_cfg"
    by (simp add: checkDiskSpace_def dir_fails_env_def Let_def)
  moreover have "\<not> (4096000000 / 1073741824 :: real) < MinRequiredSpaceGB example_cfg"
    by (simp add: example_cfg_def)
  moreover have "root_MkdirAll_ok dir_fails_env" by (simp add: dir_fails_env_def example_env_def)
  ultimately show ?thesis
    by (simp add: fatal_cause_def example_space)
qed

subsection \<open>A directory that cannot be created is counted\<close>

text \<open>
  Claim C10 at an archive whose only entry is the directory \<open>data/\<close>, in an environment
  where \<open>os.MkdirAll\<close> fails for it.  The loop does not look at the result: the count
  goes from 0 to 1 and the progress value 1 is sent.  The run has one entry in total, so
  the last progress value equals the total although the entry failed.
\<close>

theorem failed_directory_is_counted:
  "extract_file ''/home/u/Celeste'' (all_ok\<lparr>dir_MkdirAll_ok := False\<rparr>)
     \<lparr>f_Name = ''data/'', f_IsDir = True\<rparr> 0
     = (1, [Mkdir_all ''/home/u/Celeste/data'' False, Send_update 1])
   \<and> r_totalFiles (startInstallation dir_fails_env example_cfg example_info Map.empty) = 1
   \<and> updates (sends (r_trace (startInstallation dir_fails_env example_cfg example_info Map.empty)))
       = [1]"
proof (intro conjI)
  show "extract_file ''/home/u/Celeste'' (all_ok\<lparr>dir_MkdirAll_ok := False\<rparr>)
     \<lparr>f_Name = ''data/'', f_IsDir = True\<rparr> 0
     = (1, [Mkdir_all ''/home/u/Celeste/data'' False, Send_update 1])"
    by (simp add: extract_file_def all_ok_def path_eval Let_def)
  have "total_entries dir_fails_env (GameAssets example_cfg) = 1"
    by (simp add: total_entries_def dir_fails_env_def example_env_def example_cfg_def)
  with run_passed [OF dir_fails_cause, of example_info Map.empty]
  show "r_totalFiles (startInstallation dir_fails_env example_cfg example_info Map.empty) = 1"
    by auto
  show "updates (sends (r_trace (startInstallation dir_fails_env example_cfg example_info Map.empty)))
       = [1]"
    unfolding run_updates [OF dir_fails_cause]
    by (simp add: dir_fails_env_def example_env_def example_cfg_def extract_file_def all_ok_def
        path_eval Let_def sends_Cons updates_Cons)
qed

end
